theory Spec2Isabelle
  imports Main "HOL-Library.Sublist"
begin

section \<open>JavaScript strings and numbers\<close>

text \<open>
  A JavaScript string is a sequence of UTF-16 code units. It is modelled as a
  \<^typ>\<open>string\<close> whose characters are read as the code units below 256 (the Latin-1
  range), so that \<^const>\<open>length\<close> is \<^verbatim>\<open>.length\<close> and \<^const>\<open>take\<close> is
  \<^verbatim>\<open>.substring(0, n)\<close>. A \<^verbatim>\<open>number\<close> that holds a level, an index or a length is
  an \<^typ>\<open>int\<close> or a \<^typ>\<open>nat\<close>; the values \<^verbatim>\<open>NaN\<close> and the non-integral numbers
  are outside the model.
\<close>

definition is_space :: "char \<Rightarrow> bool" where
  \<comment> \<open>the class \<^verbatim>\<open>\s\<close>, which is also what \<^verbatim>\<open>trim()\<close> strips: TAB, LF, VT, FF, CR, SP, NBSP\<close>
  "is_space c \<longleftrightarrow> c \<in> set [CHR 0x09, CHR 0x0A, CHR 0x0B, CHR 0x0C, CHR 0x0D, CHR 0x20, CHR 0xA0]"

definition is_digit :: "char \<Rightarrow> bool" where
  \<comment> \<open>the class \<^verbatim>\<open>\d\<close>\<close>
  "is_digit c \<longleftrightarrow> 48 \<le> (of_char c :: nat) \<and> (of_char c :: nat) \<le> 57"

definition is_word :: "char \<Rightarrow> bool" where
  \<comment> \<open>the class \<^verbatim>\<open>\w\<close>: \<^verbatim>\<open>[A-Za-z0-9_]\<close>\<close>
  "is_word c \<longleftrightarrow>
     (let n = (of_char c :: nat) in
      (65 \<le> n \<and> n \<le> 90) \<or> (97 \<le> n \<and> n \<le> 122) \<or> (48 \<le> n \<and> n \<le> 57) \<or> n = 95)"

definition trim :: "string \<Rightarrow> string" where
  "trim s = rev (dropWhile is_space (rev (dropWhile is_space s)))"

definition upper_char :: "char \<Rightarrow> string" where
  \<comment> \<open>\<^verbatim>\<open>toUpperCase\<close> on one code unit: a-z and the accented Latin-1 letters move down by
      32, the sharp s becomes SS; the micro sign and y with diaeresis, whose capitals lie
      above 255, are left as they are\<close>
  "upper_char c =
     (let n = (of_char c :: nat) in
      if 97 \<le> n \<and> n \<le> 122 then [char_of (n - 32)]
      else if 224 \<le> n \<and> n \<le> 254 \<and> n \<noteq> 247 then [char_of (n - 32)]
      else if n = 223 then ''SS''
      else [c])"

definition toUpperCase :: "string \<Rightarrow> string" where
  "toUpperCase s = concat (map upper_char s)"

definition lower_char :: "char \<Rightarrow> char" where
  \<comment> \<open>\<^verbatim>\<open>toLowerCase\<close> on one code unit: A-Z and the accented Latin-1 capitals move up by 32\<close>
  "lower_char c =
     (let n = (of_char c :: nat) in
      if 65 \<le> n \<and> n \<le> 90 then char_of (n + 32)
      else if 192 \<le> n \<and> n \<le> 222 \<and> n \<noteq> 215 then char_of (n + 32)
      else c)"

definition toLowerCase :: "string \<Rightarrow> string" where
  "toLowerCase s = map lower_char s"

fun radix_digits :: "nat \<Rightarrow> nat \<Rightarrow> string" where
  \<comment> \<open>the digits of \<^verbatim>\<open>n.toString(b)\<close> for a natural number, \<^verbatim>\<open>0-9a-z\<close>\<close>
  "radix_digits b n =
     (let d = (\<lambda>k. if k < 10 then char_of (48 + k) else char_of (87 + k)) in
      if b < 2 \<or> n < b then [d n] else radix_digits b (n div b) @ [d (n mod b)])"

declare radix_digits.simps [simp del]

definition number_to_string :: "int \<Rightarrow> string" where
  \<comment> \<open>what a template literal prints for an integral number of magnitude below \<open>10^21\<close>;
      from there on JavaScript prints the exponent form, which is outside the model\<close>
  "number_to_string i =
     (if i < 0 then CHR ''-'' # radix_digits 10 (nat (- i)) else radix_digits 10 (nat i))"

function replace_runs :: "(char \<Rightarrow> bool) \<Rightarrow> string \<Rightarrow> string \<Rightarrow> string" where
  \<comment> \<open>\<^verbatim>\<open>s.replace(/[P]+/g, r)\<close>: every maximal run of characters of the class becomes r\<close>
  "replace_runs P r [] = []"
| "replace_runs P r (c # cs) =
     (if P c then r @ replace_runs P r (dropWhile P cs) else c # replace_runs P r cs)"
  by pat_completeness auto
termination
  by (relation "measure (\<lambda>(P, r, s). length s)") (auto simp: le_imp_less_Suc length_dropWhile_le)

definition strip_prefix :: "string \<Rightarrow> string \<Rightarrow> string" where
  \<comment> \<open>\<^verbatim>\<open>s.replace(/^p/, "")\<close> for a literal p\<close>
  "strip_prefix p s = (if take (length p) s = p then drop (length p) s else s)"

section \<open>Heading sections\<close>

text \<open>The error classes of the domain (\<^verbatim>\<open>domain/shared\<close>) and of the use cases.\<close>

datatype js_error =
    ValidationError string
  | ParseError string
  | InvalidSectionError string
  | RepositoryError string
  | StorageQuotaExceededError string
  | InputValidationError string string
  | Error string
  | Thrown string

record HeadingSection =
  level :: int
  tagName :: string
  titleText :: string
  contentHtml :: string
  sourceUrl :: string
  addedAt :: nat
  sectionId :: string

record section_params =
  p_level :: int
  p_tagName :: string
  p_titleText :: string
  p_contentHtml :: string
  p_sourceUrl :: string
  p_sectionId :: "string option"

text \<open>
  What the platform supplies to \<^verbatim>\<open>createHeadingSection\<close>: the URL parser
  (\<^verbatim>\<open>new URL(s)\<close> throws or yields a host name), the clock and the random source.
\<close>

record platform =
  url_parses :: "string \<Rightarrow> bool"
  url_hostname :: "string \<Rightarrow> string"
  date_now :: nat
  math_random36 :: string

definition MIN_HEADING_LEVEL :: int where "MIN_HEADING_LEVEL = 1"
definition MAX_HEADING_LEVEL :: int where "MAX_HEADING_LEVEL = 6"

definition isValidHeadingLevel :: "int \<Rightarrow> bool" where
  "isValidHeadingLevel l \<longleftrightarrow> l \<ge> MIN_HEADING_LEVEL \<and> l \<le> MAX_HEADING_LEVEL"

definition getHeadingLevelFromTag :: "string \<Rightarrow> int option" where
  \<comment> \<open>\<^verbatim>\<open>tagName.toUpperCase().match(/^H([1-6])$/)\<close>\<close>
  "getHeadingLevelFromTag t =
     (case toUpperCase t of
        [h, d] \<Rightarrow>
          (if h = CHR ''H'' \<and> 49 \<le> (of_char d :: nat) \<and> (of_char d :: nat) \<le> 54
           then Some (int (of_char d) - 48) else None)
      | _ \<Rightarrow> None)"

definition validateHeadingLevel :: "int \<Rightarrow> js_error + unit" where
  "validateHeadingLevel l =
     (if \<not> isValidHeadingLevel l
      then Inl (ValidationError (''Invalid heading level: '' @ number_to_string l @
             ''. Must be between '' @ number_to_string MIN_HEADING_LEVEL @ '' and '' @
             number_to_string MAX_HEADING_LEVEL))
      else Inr ())"

definition validateTagName :: "string \<Rightarrow> int \<Rightarrow> js_error + unit" where
  "validateTagName t l =
     (let expectedTag = ''H'' @ number_to_string l in
      if toUpperCase t \<noteq> expectedTag
      then Inl (ValidationError (''Tag name '' @ t @ '' doesn't match level '' @
             number_to_string l @ ''. Expected '' @ expectedTag))
      else Inr ())"

definition validateRequiredFields :: "platform \<Rightarrow> section_params \<Rightarrow> js_error + unit" where
  "validateRequiredFields pf p =
     (if trim (p_titleText p) = [] then Inl (ValidationError ''Title text is required'')
      else if trim (p_contentHtml p) = [] then Inl (ValidationError ''Content HTML is required'')
      else if trim (p_sourceUrl p) = [] then Inl (ValidationError ''Source URL is required'')
      else if \<not> url_parses pf (p_sourceUrl p)
        then Inl (ValidationError (''Invalid source URL: '' @ p_sourceUrl p))
      else Inr ())"

definition generateUniqueSectionId :: "platform \<Rightarrow> string \<Rightarrow> int \<Rightarrow> string \<Rightarrow> string" where
  "generateUniqueSectionId pf url l title =
     (let timestamp = radix_digits 36 (date_now pf);
          random = take 4 (drop 2 (math_random36 pf))
      in if url_parses pf url then
           (let hostname = toLowerCase
                  (map (\<lambda>c. if is_word c \<or> c = CHR ''-'' then c else CHR ''-'')
                    (strip_prefix ''www.'' (url_hostname pf url)));
                s1 = filter (\<lambda>c. is_word c \<or> is_space c \<or> c = CHR ''-'') (toLowerCase (trim title));
                s2 = replace_runs is_space ''-'' s1;
                s3 = replace_runs (\<lambda>c. c = CHR ''-'') ''-'' s2;
                s4 = rev (dropWhile (\<lambda>c. c = CHR ''-'') (rev (dropWhile (\<lambda>c. c = CHR ''-'') s3)));
                titleSlug = take 30 s4
            in hostname @ ''-h'' @ number_to_string l @ ''-'' @ titleSlug @ ''-'' @ timestamp
                 @ ''-'' @ random)
         else
           (let fallbackSlug =
                  take 20 (map (\<lambda>c. if is_word c \<or> c = CHR ''-'' then c else CHR ''-'') url)
            in fallbackSlug @ ''-h'' @ number_to_string l @ ''-'' @ timestamp @ ''-'' @ random))"

definition createHeadingSection :: "platform \<Rightarrow> section_params \<Rightarrow> js_error + HeadingSection" where
  "createHeadingSection pf p =
     (case validateHeadingLevel (p_level p) of Inl e \<Rightarrow> Inl e | Inr _ \<Rightarrow>
      case validateTagName (p_tagName p) (p_level p) of Inl e \<Rightarrow> Inl e | Inr _ \<Rightarrow>
      case validateRequiredFields pf p of Inl e \<Rightarrow> Inl e | Inr _ \<Rightarrow>
        (let generated = generateUniqueSectionId pf (p_sourceUrl p) (p_level p) (trim (p_titleText p));
             sid = (case p_sectionId p of
                      None \<Rightarrow> generated
                    | Some s \<Rightarrow> if trim s \<noteq> [] then trim s else generated)
         in Inr \<lparr> level = p_level p,
                  tagName = toUpperCase (p_tagName p),
                  titleText = trim (p_titleText p),
                  contentHtml = p_contentHtml p,
                  sourceUrl = p_sourceUrl p,
                  addedAt = date_now pf,
                  sectionId = sid \<rparr>))"

text \<open>
  The service parser imports the factory of \<^verbatim>\<open>entities/heading-section\<close>, which makes
  the same tests in the same order, asks for an integral level (which holds by typing),
  and throws plain errors with messages of its own.
\<close>

definition createHeadingSectionEntity :: "platform \<Rightarrow> section_params \<Rightarrow> js_error + HeadingSection" where
  "createHeadingSectionEntity pf p =
     (let expectedTagName = ''H'' @ number_to_string (p_level p) in
      if p_level p < 1 \<or> p_level p > 6
        then Inl (Error (''Invalid heading level: '' @ number_to_string (p_level p) @
               ''. Must be an integer between 1 and 6.''))
      else if toUpperCase (p_tagName p) \<noteq> expectedTagName
        then Inl (Error (''Tag name '' @ [CHR 0x22] @ p_tagName p @ [CHR 0x22] @
               '' does not match level '' @ number_to_string (p_level p) @ ''. Expected '' @
               [CHR 0x22] @ expectedTagName @ [CHR 0x22] @ ''.''))
      else if trim (p_titleText p) = [] then Inl (Error ''titleText cannot be empty'')
      else if trim (p_contentHtml p) = [] then Inl (Error ''contentHtml cannot be empty'')
      else if trim (p_sourceUrl p) = [] then Inl (Error ''sourceUrl cannot be empty'')
      else if \<not> url_parses pf (p_sourceUrl p)
        then Inl (Error (''Invalid sourceUrl format: '' @ p_sourceUrl p))
      else
        (let generated = generateUniqueSectionId pf (p_sourceUrl p) (p_level p) (trim (p_titleText p));
             sid = (case p_sectionId p of
                      None \<Rightarrow> generated
                    | Some s \<Rightarrow> if trim s \<noteq> [] then trim s else generated)
         in Inr \<lparr> level = p_level p,
                  tagName = toUpperCase (p_tagName p),
                  titleText = trim (p_titleText p),
                  contentHtml = p_contentHtml p,
                  sourceUrl = p_sourceUrl p,
                  addedAt = date_now pf,
                  sectionId = sid \<rparr>))"

section \<open>The document\<close>

text \<open>
  A DOM tree. An element carries its \<^verbatim>\<open>tagName\<close>, its attributes and its child nodes.
  An element of the live document is a handle: the path of child indices that leads to it
  together with the node found there, so that equality of handles is object identity
  (\<^verbatim>\<open>===\<close>).
\<close>

datatype node = Element string "(string \<times> string) list" "node list" | TextNode string

type_synonym handle = "nat list \<times> node"

fun tagNameOf :: "node \<Rightarrow> string" where
  "tagNameOf (Element t as cs) = t"
| "tagNameOf (TextNode s) = []"

fun attrsOf :: "node \<Rightarrow> (string \<times> string) list" where
  "attrsOf (Element t as cs) = as"
| "attrsOf (TextNode s) = []"

fun childNodes :: "node \<Rightarrow> node list" where
  "childNodes (Element t as cs) = cs"
| "childNodes (TextNode s) = []"

fun textContent :: "node \<Rightarrow> string" where
  "textContent (TextNode s) = s"
| "textContent (Element t as cs) = concat (map textContent cs)"

definition getAttribute :: "node \<Rightarrow> string \<Rightarrow> string option" where
  "getAttribute n a = map_of (attrsOf n) a"

fun elementSiblings :: "nat list \<Rightarrow> nat \<Rightarrow> node list \<Rightarrow> handle list" where
  \<comment> \<open>the \<^verbatim>\<open>nextElementSibling\<close> chain through the children from position k on\<close>
  "elementSiblings pre k [] = []"
| "elementSiblings pre k (TextNode s # rest) = elementSiblings pre (Suc k) rest"
| "elementSiblings pre k (Element t as cs # rest) =
     (pre @ [k], Element t as cs) # elementSiblings pre (Suc k) rest"

definition HEADING_TAGS :: "string list" where
  "HEADING_TAGS = [''H1'', ''H2'', ''H3'', ''H4'', ''H5'', ''H6'']"

definition matchesHeadingSelector :: "node \<Rightarrow> bool" where
  \<comment> \<open>\<^verbatim>\<open>HEADING_SELECTOR\<close>, that is \<^verbatim>\<open>h1,h2,h3,h4,h5,h6\<close>\<close>
  "matchesHeadingSelector n \<longleftrightarrow> toUpperCase (tagNameOf n) \<in> set HEADING_TAGS"

text \<open>
  \<^verbatim>\<open>container.querySelectorAll(HEADING_SELECTOR)\<close>: the heading elements below the
  container in document order, each with the chain of its following element siblings.
\<close>

fun headingSites :: "nat list \<Rightarrow> nat \<Rightarrow> node list \<Rightarrow> (handle \<times> handle list) list" where
  "headingSites pre k [] = []"
| "headingSites pre k (TextNode s # rest) = headingSites pre (Suc k) rest"
| "headingSites pre k (Element t as cs # rest) =
     (if matchesHeadingSelector (Element t as cs)
      then [((pre @ [k], Element t as cs), elementSiblings pre (Suc k) rest)] else [])
     @ headingSites (pre @ [k]) 0 cs
     @ headingSites pre (Suc k) rest"

definition querySelectorAllHeadings :: "node \<Rightarrow> (handle \<times> handle list) list" where
  "querySelectorAllHeadings container = headingSites [] 0 (childNodes container)"

text \<open>
  The CSS selectors the sources use: lists of simple selectors on the tag name, an attribute
  value, a class or the id. A selector string that the browser rejects is
  \<open>InvalidSelector\<close>; \<^verbatim>\<open>querySelector\<close> throws on it.
\<close>

datatype simple_selector =
    TagSel string
  | AttrSel string string
  | ClassSel string
  | IdSel string

datatype selector = SelectorList "simple_selector list" | InvalidSelector

fun tokens :: "string \<Rightarrow> string \<Rightarrow> string list" where
  \<comment> \<open>the class names of a \<^verbatim>\<open>class\<close> attribute, split at ASCII white space\<close>
  "tokens acc [] = (if acc = [] then [] else [acc])"
| "tokens acc (c # cs) =
     (if c \<in> set [CHR 0x09, CHR 0x0A, CHR 0x0C, CHR 0x0D, CHR 0x20]
      then (if acc = [] then tokens [] cs else acc # tokens [] cs)
      else tokens (acc @ [c]) cs)"

fun matchesSimple :: "node \<Rightarrow> simple_selector \<Rightarrow> bool" where
  "matchesSimple n (TagSel t) \<longleftrightarrow> toLowerCase (tagNameOf n) = toLowerCase t"
| "matchesSimple n (AttrSel a v) \<longleftrightarrow> getAttribute n a = Some v"
| "matchesSimple n (ClassSel c) \<longleftrightarrow>
     (case getAttribute n ''class'' of None \<Rightarrow> False | Some v \<Rightarrow> c \<in> set (tokens [] v))"
| "matchesSimple n (IdSel i) \<longleftrightarrow> getAttribute n ''id'' = Some i"

fun descendantElements :: "nat list \<Rightarrow> nat \<Rightarrow> node list \<Rightarrow> handle list" where
  \<comment> \<open>the element descendants in document order\<close>
  "descendantElements pre k [] = []"
| "descendantElements pre k (TextNode s # rest) = descendantElements pre (Suc k) rest"
| "descendantElements pre k (Element t as cs # rest) =
     (pre @ [k], Element t as cs) # descendantElements (pre @ [k]) 0 cs
       @ descendantElements pre (Suc k) rest"

definition querySelector :: "node \<Rightarrow> selector \<Rightarrow> js_error + handle option" where
  "querySelector root sel =
     (case sel of
        InvalidSelector \<Rightarrow> Inl (Thrown ''SyntaxError'')
      | SelectorList ss \<Rightarrow>
          Inr (find (\<lambda>h. list_ex (matchesSimple (snd h)) ss)
                 (descendantElements [] 0 (childNodes root))))"

section \<open>The heading parser of the domain (heading-parser.ts)\<close>

record HeadingParserOptions =
  contentSelector :: "selector option"
  includeHeadingInContent :: "bool option"
  maxContentLength :: "int option"

record parser_options =
  o_contentSelector :: "selector option"
  o_includeHeadingInContent :: bool
  o_maxContentLength :: int

record HeadingParseResult =
  sections :: "HeadingSection list"
  warnings :: "string list"
  contentContainer :: "node option"

definition parserOptions :: "HeadingParserOptions \<Rightarrow> parser_options" where
  \<comment> \<open>the constructor: \<^verbatim>\<open>||\<close> for the selector (\<open>None\<close> is the empty string), \<^verbatim>\<open>??\<close> for
      the other two\<close>
  "parserOptions opts =
     \<lparr> o_contentSelector = contentSelector opts,
       o_includeHeadingInContent = (case includeHeadingInContent opts of None \<Rightarrow> True | Some b \<Rightarrow> b),
       o_maxContentLength = (case maxContentLength opts of None \<Rightarrow> 50000 | Some m \<Rightarrow> m) \<rparr>"

definition endsSection :: "int \<Rightarrow> node \<Rightarrow> bool" where
  \<comment> \<open>the element is a heading of level at most L\<close>
  "endsSection L n =
     (case getHeadingLevelFromTag (tagNameOf n) of Some l \<Rightarrow> l \<le> L | None \<Rightarrow> False)"

definition applyContentLimit :: "int \<Rightarrow> string \<Rightarrow> string" where
  \<comment> \<open>\<^verbatim>\<open>if (max && html.length > max) html = html.substring(0, max) + "..."\<close>\<close>
  "applyContentLimit m html =
     (if m \<noteq> 0 \<and> int (length html) > m then take (nat m) html @ ''...'' else html)"

fun collectUntilHeading :: "int \<Rightarrow> handle list \<Rightarrow> node list" where
  \<comment> \<open>the \<^verbatim>\<open>while (current)\<close> loop of \<^verbatim>\<open>extractSectionContent\<close>\<close>
  "collectUntilHeading headingLevel [] = []"
| "collectUntilHeading headingLevel (current # rest) =
     (case getHeadingLevelFromTag (tagNameOf (snd current)) of
        Some currentLevel \<Rightarrow>
          if currentLevel \<le> headingLevel then []
          else snd current # collectUntilHeading headingLevel rest
      | None \<Rightarrow> snd current # collectUntilHeading headingLevel rest)"

definition extractSectionContent ::
  "(node \<Rightarrow> string) \<Rightarrow> parser_options \<Rightarrow> handle \<times> handle list \<Rightarrow> string" where
  \<comment> \<open>\<^verbatim>\<open>outer\<close> is the markup the browser serialises for a cloned element; a \<^verbatim>\<open>null\<close>
      heading level compares as 0\<close>
  "extractSectionContent outer opts site =
     (let heading = snd (fst site);
          headingLevel = (case getHeadingLevelFromTag (tagNameOf heading) of Some l \<Rightarrow> l | None \<Rightarrow> 0);
          content = (if o_includeHeadingInContent opts then [heading] else [])
                    @ collectUntilHeading headingLevel (snd site);
          html = concat (map outer content)
      in applyContentLimit (o_maxContentLength opts) html)"

definition extractTitleText :: "node \<Rightarrow> string" where
  "extractTitleText heading = trim (textContent heading)"

definition parseHeadingSection ::
  "platform \<Rightarrow> (node \<Rightarrow> string) \<Rightarrow> parser_options \<Rightarrow> handle \<times> handle list \<Rightarrow> string
     \<Rightarrow> js_error + HeadingSection" where
  "parseHeadingSection pf outer opts site url =
     (let heading = snd (fst site) in
      case getHeadingLevelFromTag (tagNameOf heading) of
        None \<Rightarrow> Inl (ParseError (''Invalid heading tag: '' @ tagNameOf heading))
      | Some l \<Rightarrow>
          createHeadingSection pf
            \<lparr> p_level = l, p_tagName = tagNameOf heading, p_titleText = extractTitleText heading,
              p_contentHtml = extractSectionContent outer opts site, p_sourceUrl = url,
              p_sectionId = None \<rparr>)"

fun errorMessage :: "js_error \<Rightarrow> string" where
  \<comment> \<open>\<^verbatim>\<open>error instanceof Error ? error.message : String(error)\<close>\<close>
  "errorMessage (ValidationError m) = m"
| "errorMessage (ParseError m) = m"
| "errorMessage (InvalidSectionError m) = m"
| "errorMessage (RepositoryError m) = m"
| "errorMessage (StorageQuotaExceededError m) = m"
| "errorMessage (InputValidationError m f) = m"
| "errorMessage (Error m) = m"
| "errorMessage (Thrown v) = v"

fun parseLoop ::
  "(nat \<Rightarrow> platform) \<Rightarrow> (node \<Rightarrow> string) \<Rightarrow> parser_options \<Rightarrow> string \<Rightarrow> nat
     \<Rightarrow> (handle \<times> handle list) list \<Rightarrow> HeadingSection list \<Rightarrow> string list
     \<Rightarrow> HeadingSection list \<times> string list" where
  \<comment> \<open>the \<^verbatim>\<open>for\<close> loop of \<^verbatim>\<open>parseFromContainer\<close> from index i on, with its try/catch\<close>
  "parseLoop pf outer opts url i [] secs warns = (secs, warns)"
| "parseLoop pf outer opts url i (site # rest) secs warns =
     (case parseHeadingSection (pf i) outer opts site url of
        Inr section \<Rightarrow> parseLoop pf outer opts url (Suc i) rest (secs @ [section]) warns
      | Inl error \<Rightarrow>
          parseLoop pf outer opts url (Suc i) rest secs
            (warns @ [''Failed to parse heading '' @ number_to_string (int i + 1) @ '': ''
                        @ errorMessage error]))"

definition parseFromContainer ::
  "(nat \<Rightarrow> platform) \<Rightarrow> (node \<Rightarrow> string) \<Rightarrow> parser_options \<Rightarrow> node \<Rightarrow> string
     \<Rightarrow> HeadingParseResult" where
  \<comment> \<open>\<^verbatim>\<open>pf i\<close> is the platform as the heading of index i finds it\<close>
  "parseFromContainer pf outer opts container url =
     (let headings = querySelectorAllHeadings container;
          r = parseLoop pf outer opts url 0 headings [] []
      in \<lparr> sections = fst r, warnings = snd r, contentContainer = Some container \<rparr>)"


section \<open>The heading parser service (services/heading-parser.ts)\<close>

definition getDefaultContentSelector :: selector where
  \<comment> \<open>\<^verbatim>\<open>main, [role="main"], .main-content, .content, #content\<close>\<close>
  "getDefaultContentSelector =
     SelectorList [TagSel ''main'', AttrSel ''role'' ''main'', ClassSel ''main-content'',
       ClassSel ''content'', IdSel ''content'']"

definition serviceOptions :: "HeadingParserOptions \<Rightarrow> parser_options" where
  \<comment> \<open>the constructor of the service: \<^verbatim>\<open>||\<close> for the selector (\<open>None\<close> is the empty
      string) and for the length\<close>
  "serviceOptions opts =
     \<lparr> o_contentSelector =
         (case contentSelector opts of None \<Rightarrow> Some getDefaultContentSelector | Some s \<Rightarrow> Some s),
       o_includeHeadingInContent = (case includeHeadingInContent opts of None \<Rightarrow> True | Some b \<Rightarrow> b),
       o_maxContentLength =
         (case maxContentLength opts of None \<Rightarrow> 50000 | Some m \<Rightarrow> if m = 0 then 50000 else m) \<rparr>"

fun firstMatch :: "node \<Rightarrow> selector list \<Rightarrow> handle option" where
  \<comment> \<open>the loop of \<^verbatim>\<open>findContentContainer\<close>; an invalid selector is skipped\<close>
  "firstMatch root [] = None"
| "firstMatch root (sel # rest) =
     (case querySelector root sel of
        Inl error \<Rightarrow> firstMatch root rest
      | Inr None \<Rightarrow> firstMatch root rest
      | Inr (Some element) \<Rightarrow> Some element)"

definition findContentContainer :: "parser_options \<Rightarrow> node \<Rightarrow> handle option" where
  "findContentContainer opts root =
     firstMatch root
       ((case o_contentSelector opts of None \<Rightarrow> [] | Some s \<Rightarrow> [s]) @
        [SelectorList [TagSel ''main''], SelectorList [AttrSel ''role'' ''main''],
         SelectorList [ClassSel ''main-content''], SelectorList [ClassSel ''content''],
         SelectorList [IdSel ''content''], SelectorList [ClassSel ''wiki-content''],
         SelectorList [ClassSel ''page-content''], SelectorList [TagSel ''article'']])"

definition findHeadingElements :: "node \<Rightarrow> (handle \<times> handle list) list" where
  \<comment> \<open>the query answers in document order, which the sort by document position keeps\<close>
  "findHeadingElements container = querySelectorAllHeadings container"

definition isHeadingElement :: "node \<Rightarrow> bool" where
  \<comment> \<open>\<^verbatim>\<open>/^H[1-6]$/i.test(element.tagName)\<close>\<close>
  "isHeadingElement n \<longleftrightarrow>
     (case tagNameOf n of
        [h, d] \<Rightarrow> (h = CHR ''H'' \<or> h = CHR ''h'') \<and> 49 \<le> (of_char d :: nat) \<and> (of_char d :: nat) \<le> 54
      | _ \<Rightarrow> False)"

definition findNextRelevantHeading :: "handle list \<Rightarrow> nat \<Rightarrow> int \<Rightarrow> handle option" where
  "findNextRelevantHeading allHeadings currentIndex currentLevel =
     find (\<lambda>heading. case getHeadingLevelFromTag (tagNameOf (snd heading)) of
                        Some l \<Rightarrow> l \<le> currentLevel | None \<Rightarrow> False)
       (drop (Suc currentIndex) allHeadings)"

fun collectSectionNodes :: "handle option \<Rightarrow> int \<Rightarrow> handle list \<Rightarrow> node list" where
  \<comment> \<open>the \<^verbatim>\<open>while (currentNode)\<close> loop of the service's \<^verbatim>\<open>extractSectionContent\<close>\<close>
  "collectSectionNodes nextHeading currentLevel [] = []"
| "collectSectionNodes nextHeading currentLevel (currentNode # rest) =
     (if nextHeading = Some currentNode then []
      else if isHeadingElement (snd currentNode) \<and>
              (case getHeadingLevelFromTag (tagNameOf (snd currentNode)) of
                 Some nodeLevel \<Rightarrow> nodeLevel \<le> currentLevel | None \<Rightarrow> False)
      then []
      else snd currentNode # collectSectionNodes nextHeading currentLevel rest)"

definition nodesToHtmlString :: "(node \<Rightarrow> string) \<Rightarrow> parser_options \<Rightarrow> node list \<Rightarrow> string" where
  "nodesToHtmlString outer opts nodes =
     (if nodes = [] then []
      else applyContentLimit (o_maxContentLength opts) (concat (map outer nodes)))"

definition extractSectionContentService ::
  "(node \<Rightarrow> string) \<Rightarrow> parser_options \<Rightarrow> handle \<times> handle list \<Rightarrow> handle list \<Rightarrow> nat \<Rightarrow> int
     \<Rightarrow> string" where
  "extractSectionContentService outer opts site allHeadings currentIndex currentLevel =
     (let headingElement = snd (fst site);
          nextHeading = findNextRelevantHeading allHeadings currentIndex currentLevel;
          sectionNodes = (if o_includeHeadingInContent opts then [headingElement] else [])
                         @ collectSectionNodes nextHeading currentLevel (snd site)
      in nodesToHtmlString outer opts sectionNodes)"

definition generateSectionId :: "node \<Rightarrow> nat \<Rightarrow> string" where
  "generateSectionId headingElement index =
     (case getAttribute headingElement ''id'' of
        Some i \<Rightarrow> if i \<noteq> [] then i else
          ''section-'' @ number_to_string (int index) @ ''-'' @
            take 50 (replace_runs is_space ''-''
              (filter (\<lambda>c. is_word c \<or> is_space c \<or> c = CHR ''-'')
                 (toLowerCase (extractTitleText headingElement))))
      | None \<Rightarrow>
          ''section-'' @ number_to_string (int index) @ ''-'' @
            take 50 (replace_runs is_space ''-''
              (filter (\<lambda>c. is_word c \<or> is_space c \<or> c = CHR ''-'')
                 (toLowerCase (extractTitleText headingElement)))))"

definition parseHeadingSectionService ::
  "platform \<Rightarrow> (node \<Rightarrow> string) \<Rightarrow> parser_options \<Rightarrow> handle \<times> handle list \<Rightarrow> handle list \<Rightarrow> nat
     \<Rightarrow> string \<Rightarrow> js_error + HeadingSection" where
  "parseHeadingSectionService pf outer opts site allHeadings currentIndex url =
     (let headingElement = snd (fst site) in
      case getHeadingLevelFromTag (tagNameOf headingElement) of
        None \<Rightarrow> Inl (Error (''Invalid heading tag: '' @ tagNameOf headingElement))
      | Some l \<Rightarrow>
          (let title = extractTitleText headingElement in
           if trim title = [] then Inl (Error ''Heading element has no text content'')
           else
             (let html = extractSectionContentService outer opts site allHeadings currentIndex l in
              if trim html = [] then Inl (Error ''Section has no content'')
              else createHeadingSectionEntity pf
                     \<lparr> p_level = l, p_tagName = tagNameOf headingElement, p_titleText = title,
                       p_contentHtml = html, p_sourceUrl = url,
                       p_sectionId = Some (generateSectionId headingElement currentIndex) \<rparr>)))"

definition serviceErrorMessage :: "js_error \<Rightarrow> string" where
  \<comment> \<open>\<^verbatim>\<open>error instanceof Error ? error.message : "Unknown error"\<close>\<close>
  "serviceErrorMessage e = (case e of Thrown v \<Rightarrow> ''Unknown error'' | _ \<Rightarrow> errorMessage e)"

fun parseLoopService ::
  "(nat \<Rightarrow> platform) \<Rightarrow> (node \<Rightarrow> string) \<Rightarrow> parser_options \<Rightarrow> string \<Rightarrow> handle list \<Rightarrow> nat
     \<Rightarrow> (handle \<times> handle list) list \<Rightarrow> HeadingSection list \<Rightarrow> string list
     \<Rightarrow> HeadingSection list \<times> string list" where
  "parseLoopService pf outer opts url allHeadings i [] secs warns = (secs, warns)"
| "parseLoopService pf outer opts url allHeadings i (site # rest) secs warns =
     (case parseHeadingSectionService (pf i) outer opts site allHeadings i url of
        Inr section \<Rightarrow>
          parseLoopService pf outer opts url allHeadings (Suc i) rest (secs @ [section]) warns
      | Inl error \<Rightarrow>
          parseLoopService pf outer opts url allHeadings (Suc i) rest secs
            (warns @ [''Failed to parse heading at index '' @ number_to_string (int i) @ '': ''
                        @ serviceErrorMessage error]))"

definition parseFromElement ::
  "(nat \<Rightarrow> platform) \<Rightarrow> (node \<Rightarrow> string) \<Rightarrow> parser_options \<Rightarrow> node \<Rightarrow> string
     \<Rightarrow> HeadingParseResult" where
  "parseFromElement pf outer opts rootElement url =
     (let found = findContentContainer opts rootElement;
          warns0 = (case found of
                      None \<Rightarrow> [''Could not find main content container, using document body'']
                    | Some c \<Rightarrow> []);
          container = (case found of None \<Rightarrow> rootElement | Some c \<Rightarrow> snd c);
          headingElements = findHeadingElements container
      in if headingElements = []
         then \<lparr> sections = [], warnings = warns0 @ [''No heading elements found in the content''],
                contentContainer = map_option snd found \<rparr>
         else
           (let r = parseLoopService pf outer opts url (map fst headingElements) 0 headingElements
                      [] warns0
            in \<lparr> sections = fst r, warnings = snd r, contentContainer = map_option snd found \<rparr>))"


section \<open>Regular expressions\<close>

text \<open>
  The patterns of the sources are anchored at both ends, so a test is a match of the whole
  string; it is computed with derivatives. \<open>Atom P\<close> is one character of a class.
\<close>

datatype rx = Zero | One | Atom "char \<Rightarrow> bool" | Seq rx rx | Alt rx rx | Star rx

fun nullable :: "rx \<Rightarrow> bool" where
  "nullable Zero = False"
| "nullable One = True"
| "nullable (Atom P) = False"
| "nullable (Seq r s) = (nullable r \<and> nullable s)"
| "nullable (Alt r s) = (nullable r \<or> nullable s)"
| "nullable (Star r) = True"

fun deriv :: "char \<Rightarrow> rx \<Rightarrow> rx" where
  "deriv c Zero = Zero"
| "deriv c One = Zero"
| "deriv c (Atom P) = (if P c then One else Zero)"
| "deriv c (Seq r s) =
     (if nullable r then Alt (Seq (deriv c r) s) (deriv c s) else Seq (deriv c r) s)"
| "deriv c (Alt r s) = Alt (deriv c r) (deriv c s)"
| "deriv c (Star r) = Seq (deriv c r) (Star r)"

fun rx_test :: "rx \<Rightarrow> string \<Rightarrow> bool" where
  "rx_test r [] = nullable r"
| "rx_test r (c # cs) = rx_test (deriv c r) cs"

definition canonicalize :: "char \<Rightarrow> char" where
  \<comment> \<open>the case folding of the \<^verbatim>\<open>i\<close> flag: the capital, when it is a single character\<close>
  "canonicalize c = (case upper_char c of [u] \<Rightarrow> u | _ \<Rightarrow> c)"

definition Plus :: "rx \<Rightarrow> rx" where "Plus r = Seq r (Star r)"
definition Opt :: "rx \<Rightarrow> rx" where "Opt r = Alt r One"
definition Lit :: "char \<Rightarrow> rx" where "Lit c = Atom (\<lambda>x. x = c)"
definition LitI :: "char \<Rightarrow> rx" where "LitI c = Atom (\<lambda>x. canonicalize x = canonicalize c)"
definition WordI :: "string \<Rightarrow> rx" where "WordI w = foldr (\<lambda>c r. Seq (LitI c) r) w One"

section \<open>The section validator (heading-extractor.service.ts)\<close>

definition normalizeText :: "string \<Rightarrow> string" where
  \<comment> \<open>\<^verbatim>\<open>text.replace(/\s+/g, " ").trim()\<close>\<close>
  "normalizeText text = trim (replace_runs is_space '' '' text)"

definition excludePatterns :: "rx list" where
  "excludePatterns =
     [Seq (WordI ''table'') (Seq (Plus (Atom is_space)) (Seq (WordI ''of'')
        (Seq (Plus (Atom is_space)) (Seq (WordI ''content'') (Opt (LitI CHR ''s'')))))),
      WordI ''toc'',
      Seq (WordI ''content'') (Opt (LitI CHR ''s'')),
      WordI ''index'',
      Seq (WordI ''reference'') (Opt (LitI CHR ''s'')),
      WordI ''bibliography'',
      Seq (WordI ''footnote'') (Opt (LitI CHR ''s'')),
      Seq (WordI ''see'') (Seq (Plus (Atom is_space)) (WordI ''also'')),
      Seq (Plus (Atom is_digit)) (Seq (Opt (Lit CHR ''.'')) (Star (Atom is_space))),
      Plus (Atom (\<lambda>c. c = CHR ''#'' \<or> c = CHR ''-'' \<or> c = CHR ''*'' \<or> c = CHR ''+'' \<or> is_space c))]"

definition shouldExcludeSection :: "HeadingSection \<Rightarrow> bool" where
  "shouldExcludeSection section =
     (let title = trim (toLowerCase (titleText section))
      in list_ex (\<lambda>pattern. rx_test pattern title) excludePatterns)"

definition isValidSection :: "HeadingSection \<Rightarrow> bool" where
  "isValidSection section =
     (if titleText section = [] \<or> sourceUrl section = [] then False
      else if length (trim (titleText section)) < 2 then False
      else if level section < 1 \<or> level section > 6 then False
      else if shouldExcludeSection section then False
      else True)"

fun filterLoop :: "HeadingSection list \<Rightarrow> HeadingSection list \<Rightarrow> string set \<Rightarrow> HeadingSection list" where
  \<comment> \<open>the \<^verbatim>\<open>for\<close> loop of \<^verbatim>\<open>validateAndFilterSections\<close> with \<^verbatim>\<open>validSections\<close> and
      \<^verbatim>\<open>seenTitles\<close>\<close>
  "filterLoop [] validSections seenTitles = validSections"
| "filterLoop (section # rest) validSections seenTitles =
     (if \<not> isValidSection section then filterLoop rest validSections seenTitles
      else
        (let normalizedTitle = normalizeText (titleText section)
         in if normalizedTitle \<in> seenTitles then filterLoop rest validSections seenTitles
            else filterLoop rest (validSections @ [section]) (insert normalizedTitle seenTitles)))"

definition validateAndFilterSections :: "HeadingSection list \<Rightarrow> HeadingSection list" where
  "validateAndFilterSections secs = filterLoop secs [] {}"

text \<open>
  The validator as the specification words it: of the sections with one normalised title
  the first is kept and the later ones are dropped.
\<close>

function firstOccurrences :: "('a \<Rightarrow> 'k) \<Rightarrow> 'a list \<Rightarrow> 'a list" where
  "firstOccurrences key [] = []"
| "firstOccurrences key (x # xs) = x # firstOccurrences key (filter (\<lambda>y. key y \<noteq> key x) xs)"
  by pat_completeness auto
termination
  by (relation "measure (\<lambda>(key, xs). length xs)") (auto simp: le_imp_less_Suc)


section \<open>Adding a section (add-heading-section.ts)\<close>


datatype error_code = INVALID_INPUT | STORAGE_QUOTA_EXCEEDED | REPOSITORY_ERROR | UNKNOWN_ERROR

text \<open>
  The result of the use case: the id of the stored section, or an error code with its
  message and details.
\<close>

datatype AddHeadingSectionResult =
    Success string
  | Failure error_code string "(string \<times> string) list"






fun handleError :: "js_error \<Rightarrow> AddHeadingSectionResult" where
  \<comment> \<open>the \<^verbatim>\<open>instanceof\<close> chain; a quota error is a repository error and is tested first\<close>
  "handleError (InputValidationError m f) = Failure INVALID_INPUT m [(''field'', f)]"
| "handleError (StorageQuotaExceededError m) =
     Failure STORAGE_QUOTA_EXCEEDED
       ''Storage quota exceeded. Please remove some sections and try again.''
       [(''originalError'', m)]"
| "handleError (InvalidSectionError m) = Failure INVALID_INPUT m [(''originalError'', m)]"
| "handleError (RepositoryError m) =
     Failure REPOSITORY_ERROR ''Failed to save section to storage'' [(''originalError'', m)]"
| "handleError e =
     Failure UNKNOWN_ERROR ''An unexpected error occurred while adding the section''
       [(''originalError'', errorMessage e)]"




section \<open>The page-change monitor (SPAMonitorService)\<close>

text \<open>
  A navigation callback is run for its effect; what the monitor sees of it is whether it
  throws. The monitor's state keeps the callbacks and the last observed URL; each check
  reports the calls it made, as pairs of the callback's position and the URL passed, and
  the errors it logged.
\<close>

record SPAMonitorService =
  navigationCallbacks :: "(string \<Rightarrow> js_error option) list"
  isActive :: bool
  lastUrl :: string

fun runCallbacks ::
  "(string \<Rightarrow> js_error option) list \<Rightarrow> nat \<Rightarrow> string \<Rightarrow> (nat \<times> string) list \<times> string list" where
  \<comment> \<open>\<^verbatim>\<open>forEach\<close> with the try/catch around each call\<close>
  "runCallbacks [] k url = ([], [])"
| "runCallbacks (callback # rest) k url =
     (let r = runCallbacks rest (Suc k) url
      in case callback url of
           None \<Rightarrow> ((k, url) # fst r, snd r)
         | Some error \<Rightarrow>
             ((k, url) # fst r,
              (''DeepWiki++: Navigation callback error: '' @ errorMessage error) # snd r))"

definition checkNavigationChange ::
  "string \<Rightarrow> SPAMonitorService \<Rightarrow> SPAMonitorService \<times> (nat \<times> string) list \<times> string list" where
  \<comment> \<open>the first argument is \<^verbatim>\<open>window.location.href\<close> at the time of the check\<close>
  "checkNavigationChange currentUrl m =
     (if currentUrl \<noteq> lastUrl m
      then (m\<lparr>lastUrl := currentUrl\<rparr>, runCallbacks (navigationCallbacks m) 0 currentUrl)
      else (m, [], []))"

definition startMonitoring ::
  "string \<Rightarrow> (string \<Rightarrow> js_error option) \<Rightarrow> SPAMonitorService \<Rightarrow> SPAMonitorService" where
  "startMonitoring href onNavigationChange m =
     (if isActive m then m
      else m\<lparr>navigationCallbacks := navigationCallbacks m @ [onNavigationChange],
             lastUrl := href, isActive := True\<rparr>)"

fun notifications ::
  "string list \<Rightarrow> SPAMonitorService \<Rightarrow> SPAMonitorService \<times> (nat \<times> string) list" where
  \<comment> \<open>a run of navigation-change notifications, each with the URL it finds, and all the
      callback calls they make\<close>
  "notifications [] m = (m, [])"
| "notifications (url # urls) m =
     (let c = checkNavigationChange url m;
          r = notifications urls (fst c)
      in (fst r, fst (snd c) @ snd r))"

text \<open>
  \<^verbatim>\<open>waitForElement\<close>. The promise, the temporary observer and the timer are a small
  machine: the browser delivers mutation records to a connected observer and fires an
  armed timer. A mutation event says whether the selector matches when the callback looks.
\<close>

record wait_state =
  observing :: bool
  timerArmed :: bool
  timerDelay :: nat
  resolved :: "bool option"
  lateCallbacks :: nat

datatype wait_event = Mutation bool | TimerFires

definition resolvePromise :: "bool \<Rightarrow> bool option \<Rightarrow> bool option" where
  \<comment> \<open>settling a promise that is settled already does nothing\<close>
  "resolvePromise b r = (case r of None \<Rightarrow> Some b | Some old \<Rightarrow> Some old)"

definition waitForElement :: "bool \<Rightarrow> nat option \<Rightarrow> wait_state" where
  \<comment> \<open>the call itself: the selector matches already, or the observer and the timer are set\<close>
  "waitForElement matchesNow timeout =
     (let delay = (case timeout of None \<Rightarrow> 10000 | Some t \<Rightarrow> t)
      in if matchesNow
         then \<lparr> observing = False, timerArmed = False, timerDelay = delay, resolved = Some True,
                lateCallbacks = 0 \<rparr>
         else \<lparr> observing = True, timerArmed = True, timerDelay = delay, resolved = None,
                lateCallbacks = 0 \<rparr>)"

fun waitStep :: "wait_event \<Rightarrow> wait_state \<Rightarrow> wait_state" where
  "waitStep (Mutation found) s =
     (if \<not> observing s then s
      else
        (let s1 = s\<lparr>lateCallbacks := lateCallbacks s + (if resolved s = None then 0 else 1)\<rparr>
         in if found
            then s1\<lparr>timerArmed := False, observing := False,
                     resolved := resolvePromise True (resolved s1)\<rparr>
            else s1))"
| "waitStep TimerFires s =
     (if \<not> timerArmed s then s
      else s\<lparr>timerArmed := False, observing := False,
               resolved := resolvePromise False (resolved s)\<rparr>)"

definition waitRun :: "wait_event list \<Rightarrow> wait_state \<Rightarrow> wait_state" where
  "waitRun events s = foldl (\<lambda>s e. waitStep e s) s events"

section \<open>The content script (initialize)\<close>

text \<open>
  \<^verbatim>\<open>initialize\<close> is an async function: it runs to its next \<^verbatim>\<open>await\<close> without
  interruption and is resumed when the awaited promise settles. A pass in flight is a
  suspended invocation, at one of the three awaits. The state holds the flag, the passes in
  flight and the log of what was done to the page.
\<close>

datatype await_point = AwaitHeadings | AwaitStabilization | AwaitExtraction

datatype page_effect = LocateContainer | ExtractSections | RemoveControls | MountControls

datatype 'a outcome = Returns 'a | Throws

datatype init_event =
    Invoke "bool outcome" "bool outcome"
  | Settle nat "bool outcome"

record content_script =
  isInitializing :: bool
  inFlight :: "await_point list"
  effects :: "page_effect list"
  processedUrls :: nat

definition finishPass :: "nat \<Rightarrow> content_script \<Rightarrow> content_script" where
  \<comment> \<open>the \<^verbatim>\<open>finally\<close> block, and the end of the invocation\<close>
  "finishPass k s =
     s\<lparr>isInitializing := False, inFlight := take k (inFlight s) @ drop (Suc k) (inFlight s)\<rparr>"

fun initStep :: "init_event \<Rightarrow> content_script \<Rightarrow> content_script" where
  \<comment> \<open>a call of \<^verbatim>\<open>initialize\<close>, up to its first await: \<^verbatim>\<open>isRelevantPage()\<close> and
      \<^verbatim>\<open>findMainContentContainer()\<close> answer or throw\<close>
  "initStep (Invoke relevant container) s =
     (if isInitializing s then s
      else
        (let s1 = s\<lparr>isInitializing := True\<rparr> in
         case relevant of
           Throws \<Rightarrow> s1\<lparr>isInitializing := False\<rparr>
         | Returns False \<Rightarrow> s1\<lparr>isInitializing := False\<rparr>
         | Returns True \<Rightarrow>
             (let s2 = s1\<lparr>effects := effects s1 @ [LocateContainer]\<rparr> in
              case container of
                Throws \<Rightarrow> s2\<lparr>isInitializing := False\<rparr>
              | Returns False \<Rightarrow> s2\<lparr>isInitializing := False\<rparr>
              | Returns True \<Rightarrow> s2\<lparr>inFlight := inFlight s2 @ [AwaitHeadings]\<rparr>)))"
  \<comment> \<open>the promise that pass k awaits settles: the headings were found or not, the content
      is stable, or the sections are extracted and the controls are refreshed (which
      completes or throws)\<close>
| "initStep (Settle k result) s =
     (if k \<ge> length (inFlight s) then s
      else
        (case (inFlight s ! k, result) of
           (AwaitHeadings, Returns True) \<Rightarrow> s\<lparr>inFlight := (inFlight s)[k := AwaitStabilization]\<rparr>
         | (AwaitHeadings, _) \<Rightarrow> finishPass k s
         | (AwaitStabilization, Returns _) \<Rightarrow>
             s\<lparr>inFlight := (inFlight s)[k := AwaitExtraction],
               effects := effects s @ [ExtractSections]\<rparr>
         | (AwaitStabilization, Throws) \<Rightarrow> finishPass k s
         | (AwaitExtraction, Returns True) \<Rightarrow>
             finishPass k (s\<lparr>effects := effects s @ [RemoveControls, MountControls],
                              processedUrls := Suc (processedUrls s)\<rparr>)
         | (AwaitExtraction, Returns False) \<Rightarrow>
             finishPass k (s\<lparr>effects := effects s @ [RemoveControls]\<rparr>)
         | (AwaitExtraction, Throws) \<Rightarrow> finishPass k s))"

definition initRun :: "init_event list \<Rightarrow> content_script \<Rightarrow> content_script" where
  "initRun events s = foldl (\<lambda>s e. initStep e s) s events"

definition pageLoaded :: content_script where
  \<comment> \<open>the state in which \<^verbatim>\<open>main()\<close> leaves the closure before the first call\<close>
  "pageLoaded = \<lparr> isInitializing = False, inFlight = [], effects = [], processedUrls = 0 \<rparr>"


section \<open>The control overlay (ButtonManagerService)\<close>

text \<open>
  What the button manager sees of the document: the heading elements in document order and
  the elements that carry the class of the controls. A heading has its level, the text of
  its own content, the two attributes the overlay writes, and a parent or none. A control
  is a node of the document, placed after a heading, inside it, at the end of the heading's
  parent, or elsewhere (a stray element of the class). The text content of a heading
  includes the text of the controls placed inside it.
\<close>

record heading_element =
  el_level :: int
  el_text :: string
  el_processed :: bool
  el_sectionId :: "string option"
  el_hasParent :: bool

datatype placement = AfterHeading nat | InsideHeading nat | UnderParentOf nat | Elsewhere

record control =
  c_node :: nat
  c_sectionIndex :: nat
  c_title :: string
  c_text :: string

record document =
  doc_headings :: "heading_element list"
  doc_controls :: "(placement \<times> control) list"
  doc_fresh :: nat

record ButtonManagerService =
  buttons :: "(string \<times> control) list"
  page :: document

definition BUTTON_ICON :: string where
  \<comment> \<open>the text of a new control, one code unit outside the Latin-1 range; it stands here
      as a plus sign\<close>
  "BUTTON_ICON = ''+''"

definition headingTextContent :: "document \<Rightarrow> nat \<Rightarrow> string" where
  "headingTextContent d k =
     el_text (doc_headings d ! k) @
     concat (map (\<lambda>pc. if fst pc = InsideHeading k then c_text (snd pc) else []) (doc_controls d))"

definition queryHeadings :: "document \<Rightarrow> int \<Rightarrow> (nat \<times> string) list" where
  \<comment> \<open>\<^verbatim>\<open>querySelectorAll("h" + level)\<close>: the positions of the headings of the level, each with
      its trimmed text content\<close>
  "queryHeadings d lv =
     map (\<lambda>k. (k, trim (headingTextContent d k)))
       (filter (\<lambda>k. el_level (doc_headings d ! k) = lv) [0..<length (doc_headings d)])"

definition findExactMatch :: "(nat \<times> string) list \<Rightarrow> HeadingSection \<Rightarrow> nat option" where
  "findExactMatch headings section =
     map_option fst (find (\<lambda>h. snd h = titleText section) headings)"

definition findNormalizedMatch :: "(nat \<times> string) list \<Rightarrow> HeadingSection \<Rightarrow> nat option" where
  "findNormalizedMatch headings section =
     map_option fst
       (find (\<lambda>h. normalizeText (snd h) = normalizeText (titleText section)) headings)"

definition findPartialMatch :: "(nat \<times> string) list \<Rightarrow> HeadingSection \<Rightarrow> nat option" where
  \<comment> \<open>\<^verbatim>\<open>startsWith\<close> is \<^const>\<open>prefix\<close>, \<^verbatim>\<open>includes\<close> is \<^const>\<open>sublist\<close>\<close>
  "findPartialMatch headings section =
     map_option fst
       (find (\<lambda>h. prefix (titleText section) (snd h) \<or> prefix (snd h) (titleText section) \<or>
                   sublist (titleText section) (snd h) \<or> sublist (snd h) (titleText section))
          headings)"

definition findIndexMatch :: "(nat \<times> string) list \<Rightarrow> nat \<Rightarrow> nat option" where
  "findIndexMatch headings index =
     (if index < length headings then Some (fst (headings ! index)) else None)"

definition locateHeading :: "document \<Rightarrow> HeadingSection \<Rightarrow> nat \<Rightarrow> nat option" where
  \<comment> \<open>the cascade of \<^verbatim>\<open>HeadingElementFinder.find\<close>\<close>
  "locateHeading d section index =
     (let headings = queryHeadings d (level section) in
      case findExactMatch headings section of Some k \<Rightarrow> Some k | None \<Rightarrow>
      case findNormalizedMatch headings section of Some k \<Rightarrow> Some k | None \<Rightarrow>
      case findPartialMatch headings section of Some k \<Rightarrow> Some k | None \<Rightarrow>
      findIndexMatch headings index)"

definition setSectionAttribute :: "nat \<Rightarrow> nat \<Rightarrow> document \<Rightarrow> document" where
  "setSectionAttribute k index d =
     d\<lparr>doc_headings := (doc_headings d)
          [k := (doc_headings d ! k)\<lparr>el_sectionId := Some (number_to_string (int index))\<rparr>]\<rparr>"

definition findHeading :: "HeadingSection \<Rightarrow> nat \<Rightarrow> document \<Rightarrow> nat option \<times> document" where
  \<comment> \<open>\<^verbatim>\<open>find\<close>: the heading found, marked with the index of the section\<close>
  "findHeading section index d =
     (case locateHeading d section index of
        None \<Rightarrow> (None, d)
      | Some k \<Rightarrow> (Some k, setSectionAttribute k index d))"

definition generateButtonId :: "HeadingSection \<Rightarrow> nat \<Rightarrow> string" where
  "generateButtonId section index =
     (let normalizedTitle =
            toLowerCase
              (filter (\<lambda>c. (65 \<le> (of_char c :: nat) \<and> (of_char c :: nat) \<le> 90) \<or>
                            (97 \<le> (of_char c :: nat) \<and> (of_char c :: nat) \<le> 122) \<or>
                            is_digit c \<or> c = CHR ''-'')
                 (replace_runs is_space ''-'' (titleText section)))
      in ''dwpp-btn-'' @ number_to_string (int index) @ ''-'' @ normalizedTitle)"

definition createButton :: "HeadingSection \<Rightarrow> nat \<Rightarrow> document \<Rightarrow> control \<times> document" where
  \<comment> \<open>\<^verbatim>\<open>ButtonFactory.create\<close>: a new element, not yet in the document\<close>
  "createButton section index d =
     (\<lparr> c_node = doc_fresh d, c_sectionIndex = index,
        c_title = ''Add '' @ [CHR 0x22] @ titleText section @ [CHR 0x22] @ '' to collection'',
        c_text = BUTTON_ICON \<rparr>,
      d\<lparr>doc_fresh := Suc (doc_fresh d)\<rparr>)"

definition insertButtonAfterElement :: "nat \<Rightarrow> control \<Rightarrow> document \<Rightarrow> bool \<times> document" where
  "insertButtonAfterElement k button d =
     (if \<not> el_hasParent (doc_headings d ! k) then (False, d)
      else (True, d\<lparr>doc_controls := doc_controls d @ [(AfterHeading k, button)]\<rparr>))"

definition insertButtonInline :: "nat \<Rightarrow> control \<Rightarrow> document \<Rightarrow> bool \<times> document" where
  "insertButtonInline k button d =
     (True, d\<lparr>doc_controls := doc_controls d @ [(InsideHeading k, button)]\<rparr>)"

definition insertButtonInParent :: "nat \<Rightarrow> control \<Rightarrow> document \<Rightarrow> bool \<times> document" where
  "insertButtonInParent k button d =
     (if \<not> el_hasParent (doc_headings d ! k) then (False, d)
      else (True, d\<lparr>doc_controls := doc_controls d @ [(UnderParentOf k, button)]\<rparr>))"

definition insertButton :: "nat \<Rightarrow> control \<Rightarrow> document \<Rightarrow> bool \<times> document" where
  \<comment> \<open>the three ways of insertion, in order, the first that succeeds\<close>
  "insertButton k button d =
     (let m1 = insertButtonAfterElement k button d in
      if fst m1 then m1
      else
        (let m2 = insertButtonInline k button d in
         if fst m2 then m2
         else
           (let m3 = insertButtonInParent k button d in
            if fst m3 then m3 else (False, d))))"

definition removeButton :: "control \<Rightarrow> document \<Rightarrow> document" where
  \<comment> \<open>\<^verbatim>\<open>ButtonFactory.removeButton\<close>: the button gives its place to a clone, and the clone is
      removed\<close>
  "removeButton button d =
     d\<lparr>doc_controls := filter (\<lambda>pc. c_node (snd pc) \<noteq> c_node button) (doc_controls d),
       doc_fresh := Suc (doc_fresh d)\<rparr>"

definition removeAllButtons :: "ButtonManagerService \<Rightarrow> ButtonManagerService" where
  "removeAllButtons m =
     (let d1 = foldl (\<lambda>d entry. removeButton (snd entry) d) (page m) (buttons m);
          d2 = d1\<lparr>doc_controls := []\<rparr>;
          d3 = d2\<lparr>doc_headings := map (\<lambda>h. h\<lparr>el_processed := False\<rparr>) (doc_headings d2)\<rparr>
      in \<lparr> buttons = [], page = d3 \<rparr>)"

definition mapSet :: "string \<Rightarrow> control \<Rightarrow> (string \<times> control) list \<Rightarrow> (string \<times> control) list" where
  \<comment> \<open>\<^verbatim>\<open>Map.set\<close>: a new key goes to the end, an old key keeps its place\<close>
  "mapSet key v entries =
     (if key \<in> set (map fst entries)
      then map (\<lambda>e. if fst e = key then (key, v) else e) entries
      else entries @ [(key, v)])"

definition insertOne :: "HeadingSection \<Rightarrow> nat \<Rightarrow> ButtonManagerService \<Rightarrow> ButtonManagerService" where
  \<comment> \<open>the body of the \<^verbatim>\<open>forEach\<close> of \<^verbatim>\<open>insertButtons\<close>\<close>
  "insertOne section index m =
     (let buttonId = generateButtonId section index in
      if buttonId \<in> set (map fst (buttons m)) then m
      else
        (case findHeading section index (page m) of
           (None, d1) \<Rightarrow> m\<lparr>page := d1\<rparr>
         | (Some k, d1) \<Rightarrow>
             if el_processed (doc_headings d1 ! k) then m\<lparr>page := d1\<rparr>
             else
               (let created = createButton section index d1;
                    inserted = insertButton k (fst created) (snd created)
                in if fst inserted
                   then \<lparr> buttons = mapSet buttonId (fst created) (buttons m),
                          page = (snd inserted)\<lparr>doc_headings := (doc_headings (snd inserted))
                                   [k := (doc_headings (snd inserted) ! k)\<lparr>el_processed := True\<rparr>]\<rparr> \<rparr>
                   else m\<lparr>page := snd inserted\<rparr>)))"

fun insertEach :: "HeadingSection list \<Rightarrow> nat \<Rightarrow> ButtonManagerService \<Rightarrow> ButtonManagerService" where
  "insertEach [] index m = m"
| "insertEach (section # rest) index m = insertEach rest (Suc index) (insertOne section index m)"

definition insertButtons :: "HeadingSection list \<Rightarrow> ButtonManagerService \<Rightarrow> ButtonManagerService" where
  "insertButtons secs m = insertEach secs 0 (removeAllButtons m)"

definition getButtonCount :: "ButtonManagerService \<Rightarrow> nat" where
  "getButtonCount m = length (buttons m)"

text \<open>
  The sections are mountable on the page when, after the tear-down, each is located at a
  heading of its own and every heading has a parent.
\<close>

definition mountable :: "HeadingSection list \<Rightarrow> ButtonManagerService \<Rightarrow> bool" where
  "mountable secs m =
     (let d = page (removeAllButtons m);
          found = map (\<lambda>i. locateHeading d (secs ! i) i) [0..<length secs]
      in list_all el_hasParent (doc_headings d) \<and> list_all (\<lambda>f. f \<noteq> None) found \<and> distinct found)"

text \<open>
  The invariant of the loop of \<^verbatim>\<open>insertButtons\<close> after i sections, against the page d0 that
  the tear-down left and the headings ks at which the sections are located: the headings
  are those of d0 up to the two attributes, the controls of the page are the i mounted ones,
  each after its heading, they are the tracked ones under the ids of their sections, and
  the processed headings are the first i of ks.
\<close>

definition headingShape :: "document \<Rightarrow> (int \<times> string \<times> bool) list" where
  "headingShape d = map (\<lambda>h. (el_level h, el_text h, el_hasParent h)) (doc_headings d)"

definition noInlineControls :: "document \<Rightarrow> bool" where
  "noInlineControls d =
     list_all (\<lambda>pc. case fst pc of InsideHeading k \<Rightarrow> False | _ \<Rightarrow> True) (doc_controls d)"

definition overlayInvariant ::
  "document \<Rightarrow> HeadingSection list \<Rightarrow> nat list \<Rightarrow> nat \<Rightarrow> ButtonManagerService \<Rightarrow> bool" where
  "overlayInvariant d0 secs ks i m =
     (headingShape (page m) = headingShape d0 \<and>
      map fst (doc_controls (page m)) = map AfterHeading (take i ks) \<and>
      map fst (buttons m) = map (\<lambda>j. generateButtonId (secs ! j) j) [0..<i] \<and>
      map snd (buttons m) = map snd (doc_controls (page m)) \<and>
      map el_processed (doc_headings (page m)) =
        map (\<lambda>k. k \<in> set (take i ks)) [0..<length (doc_headings d0)])"


section \<open>Example documents\<close>

text \<open>
  A plain serialiser (lower-case tags, no attributes, no escaping) and a small page, used
  to run the functions above on concrete input.
\<close>

fun plainMarkup :: "node \<Rightarrow> string" where
  "plainMarkup (TextNode s) = s"
| "plainMarkup (Element t as cs) =
     ''<'' @ toLowerCase t @ ''>'' @ concat (map plainMarkup cs) @ ''</'' @ toLowerCase t @ ''>''"

definition examplePlatform :: platform where
  "examplePlatform =
     \<lparr> url_parses = (\<lambda>u. True), url_hostname = (\<lambda>u. ''example.com''), date_now = 0,
       math_random36 = ''0.abcdef'' \<rparr>"

definition defaultOptions :: HeadingParserOptions where
  "defaultOptions = \<lparr> contentSelector = None, includeHeadingInContent = None, maxContentLength = None \<rparr>"

definition headingA :: node where "headingA = Element ''H2'' [] [TextNode ''A'']"
definition headingB :: node where "headingB = Element ''H3'' [] [TextNode ''B'']"
definition headingC :: node where "headingC = Element ''H2'' [] [TextNode ''C'']"
definition paraA :: node where "paraA = Element ''P'' [] [TextNode ''a'']"
definition paraB :: node where "paraB = Element ''P'' [] [TextNode ''b'']"

definition exampleContainer :: node where
  "exampleContainer = Element ''DIV'' [] [headingA, paraA, headingB, paraB, headingC]"

definition exampleUrl :: string where
  "exampleUrl = ''https://example.com/repo''"

definition untitledHeading :: node where "untitledHeading = Element ''H2'' [] [TextNode ''  '']"

definition brokenContainer :: node where
  \<comment> \<open>a page whose second heading has no title text\<close>
  "brokenContainer = Element ''DIV'' [] [headingA, paraA, untitledHeading, paraB, headingC]"

definition exampleSection :: "string \<Rightarrow> HeadingSection" where
  "exampleSection title =
     \<lparr> level = 2, tagName = ''H2'', titleText = title, contentHtml = ''<h2>x</h2>'',
       sourceUrl = exampleUrl, addedAt = 0, sectionId = ''id-'' @ title \<rparr>"



definition exampleMonitor :: SPAMonitorService where
  \<comment> \<open>a monitor with two callbacks, of which the first throws\<close>
  "exampleMonitor =
     \<lparr> navigationCallbacks = [\<lambda>url. Some (Error ''boom''), \<lambda>url. None], isActive = True,
       lastUrl = ''https://deepwiki.com/a'' \<rparr>"

definition examplePage :: document where
  \<comment> \<open>three headings, the second already marked as processed, and a stray control\<close>
  "examplePage =
     \<lparr> doc_headings =
         [\<lparr> el_level = 2, el_text = ''Intro'', el_processed = False, el_sectionId = None,
            el_hasParent = True \<rparr>,
          \<lparr> el_level = 3, el_text = ''Setup'', el_processed = True, el_sectionId = None,
            el_hasParent = True \<rparr>,
          \<lparr> el_level = 2, el_text = ''Usage'', el_processed = False, el_sectionId = None,
            el_hasParent = True \<rparr>],
       doc_controls =
         [(Elsewhere, \<lparr> c_node = 0, c_sectionIndex = 7, c_title = ''stray'', c_text = ''+'' \<rparr>)],
       doc_fresh = 1 \<rparr>"

definition exampleManager :: ButtonManagerService where
  "exampleManager = \<lparr> buttons = [], page = examplePage \<rparr>"

definition exampleSections :: "HeadingSection list" where
  "exampleSections = [exampleSection ''Intro'', (exampleSection ''Setup'')\<lparr>level := 3\<rparr>,
     exampleSection ''Usage'']"


section \<open>Level and tag of a constructed section\<close>

lemma createHeadingSection_Inr:
  "createHeadingSection pf p = Inr s \<Longrightarrow>
     isValidHeadingLevel (p_level p) \<and> toUpperCase (p_tagName p) = ''H'' @ number_to_string (p_level p)
     \<and> level s = p_level p \<and> tagName s = toUpperCase (p_tagName p)"
  by (auto simp: createHeadingSection_def validateHeadingLevel_def validateTagName_def Let_def
      split: sum.splits if_splits)

text \<open>
  Claim C3. Every section that \<^const>\<open>createHeadingSection\<close> returns has a level between 1
  and 6 and the tag name \<^verbatim>\<open>"H" + level\<close>; when the upper-cased tag name of the parameters
  is not \<^verbatim>\<open>"H" + level\<close>, or the level is outside 1..6, the call throws a
  \<^const>\<open>ValidationError\<close> and returns no section.
\<close>

theorem createHeadingSection_level_tag:
  "(createHeadingSection pf p = Inr s \<longrightarrow>
      1 \<le> level s \<and> level s \<le> 6 \<and> tagName s = ''H'' @ number_to_string (level s)) \<and>
   (toUpperCase (p_tagName p) \<noteq> ''H'' @ number_to_string (p_level p) \<or> p_level p < 1 \<or> 6 < p_level p
      \<longrightarrow> (\<exists>msg. createHeadingSection pf p = Inl (ValidationError msg)))"
proof (rule conjI; rule impI)
  assume ok: "createHeadingSection pf p = Inr s"
  from createHeadingSection_Inr [OF ok]
  show "1 \<le> level s \<and> level s \<le> 6 \<and> tagName s = ''H'' @ number_to_string (level s)"
    by (simp add: isValidHeadingLevel_def MIN_HEADING_LEVEL_def MAX_HEADING_LEVEL_def)
next
  assume bad: "toUpperCase (p_tagName p) \<noteq> ''H'' @ number_to_string (p_level p)
    \<or> p_level p < 1 \<or> 6 < p_level p"
  show "\<exists>msg. createHeadingSection pf p = Inl (ValidationError msg)"
  proof (cases "isValidHeadingLevel (p_level p)")
    case False
    then show ?thesis
      by (simp add: createHeadingSection_def validateHeadingLevel_def)
  next
    case True
    with bad have "toUpperCase (p_tagName p) \<noteq> ''H'' @ number_to_string (p_level p)"
      by (auto simp: isValidHeadingLevel_def MIN_HEADING_LEVEL_def MAX_HEADING_LEVEL_def)
    with True show ?thesis
      by (simp add: createHeadingSection_def validateHeadingLevel_def validateTagName_def Let_def)
  qed
qed

theorem createHeadingSection_level_tag_witness:
  "(let pf = \<lparr> url_parses = (\<lambda>u. True), url_hostname = (\<lambda>u. ''example.com''), date_now = 0,
                math_random36 = ''0.abcdef'' \<rparr>;
        good = \<lparr> p_level = 2, p_tagName = ''h2'', p_titleText = ''A'', p_contentHtml = ''<h2>A</h2>'',
                 p_sourceUrl = ''https://example.com/repo'', p_sectionId = Some ''s1'' \<rparr>;
        s = \<lparr> level = 2, tagName = ''H2'', titleText = ''A'', contentHtml = ''<h2>A</h2>'',
              sourceUrl = ''https://example.com/repo'', addedAt = 0, sectionId = ''s1'' \<rparr>
    in createHeadingSection pf good = Inr s \<and> tagName s = ''H'' @ number_to_string (level s) \<and>
       toUpperCase (p_tagName (good\<lparr>p_tagName := ''h3''\<rparr>)) \<noteq>
         ''H'' @ number_to_string (p_level (good\<lparr>p_tagName := ''h3''\<rparr>)) \<and>
       (\<exists>msg. createHeadingSection pf (good\<lparr>p_tagName := ''h3''\<rparr>) = Inl (ValidationError msg)) \<and>
       6 < p_level (good\<lparr>p_level := 7\<rparr>) \<and>
       (\<exists>msg. createHeadingSection pf (good\<lparr>p_level := 7\<rparr>) = Inl (ValidationError msg)))"
proof -
  let ?pf = "\<lparr> url_parses = (\<lambda>u. True), url_hostname = (\<lambda>u. ''example.com''), date_now = 0,
                math_random36 = ''0.abcdef'' \<rparr>"
  let ?good = "\<lparr> p_level = 2, p_tagName = ''h2'', p_titleText = ''A'', p_contentHtml = ''<h2>A</h2>'',
                 p_sourceUrl = ''https://example.com/repo'', p_sectionId = Some ''s1'' \<rparr>"
  let ?s = "\<lparr> level = 2, tagName = ''H2'', titleText = ''A'', contentHtml = ''<h2>A</h2>'',
              sourceUrl = ''https://example.com/repo'', addedAt = 0, sectionId = ''s1'' \<rparr>"
  have ok: "createHeadingSection ?pf ?good = Inr ?s" by code_simp
  have t: "toUpperCase ''h3'' \<noteq> ''H'' @ number_to_string 2" by code_simp
  show ?thesis
    using ok t createHeadingSection_level_tag [of ?pf ?good ?s]
      createHeadingSection_level_tag [of ?pf "?good\<lparr>p_tagName := ''h3''\<rparr>" ?s]
      createHeadingSection_level_tag [of ?pf "?good\<lparr>p_level := 7\<rparr>" ?s]
    by (simp add: Let_def)
qed

section \<open>The span of a section\<close>


lemma upper_char_nonempty: "upper_char c \<noteq> []"
  by (simp add: upper_char_def Let_def)

lemma upper_char_single:
  assumes "upper_char c = [x]"
  shows "x = c \<or> ((of_char c :: nat) = of_char x + 32 \<and>
           ((65 \<le> (of_char x :: nat) \<and> (of_char x :: nat) \<le> 90) \<or> 192 \<le> (of_char x :: nat)))"
proof -
  let ?n = "of_char c :: nat"
  have lt: "?n < 256" by simp
  show ?thesis
  proof (cases "(97 \<le> ?n \<and> ?n \<le> 122) \<or> (224 \<le> ?n \<and> ?n \<le> 254 \<and> ?n \<noteq> 247)")
    case True
    with assms have "x = char_of (?n - 32)" by (auto simp: upper_char_def Let_def)
    then have "(of_char x :: nat) = (?n - 32) mod 256" by simp
    with True lt show ?thesis by auto
  next
    case False
    with assms show ?thesis by (auto simp: upper_char_def Let_def split: if_splits)
  qed
qed

lemma upper_char_double:
  assumes "upper_char c = [x, y]"
  shows "x = CHR ''S''"
  using assms by (auto simp: upper_char_def Let_def split: if_splits)

lemma toUpperCase_two:
  assumes "toUpperCase t = [h, d]"
  shows "(\<exists>a b. t = [a, b] \<and> upper_char a = [h] \<and> upper_char b = [d]) \<or> (\<exists>a. t = [a] \<and> upper_char a = [h, d])"
proof (cases t)
  case Nil
  with assms show ?thesis by (simp add: toUpperCase_def)
next
  case (Cons a t')
  note t = Cons
  show ?thesis
  proof (cases t')
    case Nil
    with t assms show ?thesis by (simp add: toUpperCase_def)
  next
    case (Cons b t'')
    obtain xa xs where ua: "upper_char a = xa # xs"
      using upper_char_nonempty [of a] by (cases "upper_char a") auto
    obtain xb ys where ub: "upper_char b = xb # ys"
      using upper_char_nonempty [of b] by (cases "upper_char b") auto
    from assms t Cons ua ub
    have eq: "xa # xs @ xb # ys @ concat (map upper_char t'') = [h, d]"
      by (simp add: toUpperCase_def)
    then have xs: "xs = []" by (cases xs) auto
    with eq have ys: "ys = []" and rest: "concat (map upper_char t'') = []"
      and hd: "xa = h" "xb = d" by auto
    have "t'' = []"
    proof (cases t'')
      case Nil then show ?thesis .
    next
      case (Cons c u)
      with rest have "upper_char c = []" by simp
      with upper_char_nonempty show ?thesis by blast
    qed
    with t Cons ua ub xs ys hd show ?thesis by simp
  qed
qed

lemma level_isHeadingElement:
  assumes "getHeadingLevelFromTag (tagNameOf n) = Some l"
  shows "isHeadingElement n"
proof -
  from assms obtain h d where up: "toUpperCase (tagNameOf n) = [h, d]"
    and h: "h = CHR ''H''" and d: "49 \<le> (of_char d :: nat)" "(of_char d :: nat) \<le> 54"
    by (auto simp: getHeadingLevelFromTag_def split: list.splits if_splits)
  from toUpperCase_two [OF up] show ?thesis
  proof
    assume "\<exists>a b. tagNameOf n = [a, b] \<and> upper_char a = [h] \<and> upper_char b = [d]"
    then obtain a b where t: "tagNameOf n = [a, b]" and a: "upper_char a = [h]" and b: "upper_char b = [d]"
      by blast
    from upper_char_single [OF a] h have "a = CHR ''H'' \<or> (of_char a :: nat) = 104" by auto
    moreover have "a = CHR ''h''" if "(of_char a :: nat) = 104"
    proof (rule of_char_eqI)
      show "(of_char a :: nat) = of_char CHR ''h''" using that by simp
    qed
    ultimately have a': "a = CHR ''H'' \<or> a = CHR ''h''" by blast
    from upper_char_single [OF b] d have "b = d" by auto
    with t a' d show ?thesis by (auto simp: isHeadingElement_def)
  next
    assume "\<exists>a. tagNameOf n = [a] \<and> upper_char a = [h, d]"
    then obtain a where "upper_char a = [h, d]" by blast
    from upper_char_double [OF this] h show ?thesis by simp
  qed
qed


lemma collectUntilHeading_takeWhile:
  "collectUntilHeading L sibs = takeWhile (\<lambda>n. \<not> endsSection L n) (map snd sibs)"
  by (induction sibs) (auto simp: endsSection_def split: option.splits)

lemma collectSectionNodes_takeWhile:
  assumes "\<And>x. nextHeading = Some x \<Longrightarrow> endsSection L (snd x)"
  shows "collectSectionNodes nextHeading L sibs = takeWhile (\<lambda>n. \<not> endsSection L n) (map snd sibs)"
proof (induction sibs)
  case Nil
  show ?case by simp
next
  case (Cons c rest)
  show ?case
  proof (cases "endsSection L (snd c)")
    case True
    then have "isHeadingElement (snd c)"
      by (auto simp: endsSection_def split: option.splits intro: level_isHeadingElement)
    with True show ?thesis by (auto simp: endsSection_def split: option.splits)
  next
    case False
    have "nextHeading \<noteq> Some c"
    proof
      assume "nextHeading = Some c"
      from assms [OF this] False show False by simp
    qed
    with False Cons show ?thesis by (auto simp: endsSection_def split: option.splits)
  qed
qed

lemma findNextRelevantHeading_ends:
  "findNextRelevantHeading hs i L = Some x \<Longrightarrow> endsSection L (snd x)"
  by (auto simp: findNextRelevantHeading_def endsSection_def find_Some_iff)

lemma matchesHeadingSelector_level:
  "matchesHeadingSelector n \<Longrightarrow> \<exists>l. getHeadingLevelFromTag (tagNameOf n) = Some l \<and> 1 \<le> l \<and> l \<le> 6"
  by (auto simp: matchesHeadingSelector_def HEADING_TAGS_def getHeadingLevelFromTag_def)

lemma headingSites_level:
  "site \<in> set (headingSites pre k cs) \<Longrightarrow> matchesHeadingSelector (snd (fst site))"
  by (induction pre k cs rule: headingSites.induct) (auto split: if_splits)

text \<open>
  Claim C1, as amended. For every container and every heading of index i and level L among
  its headings in document order, the content of the section is the markup of the heading
  (when \<^verbatim>\<open>includeHeadingInContent\<close> is on) followed by the markup of each following sibling
  element, up to the first sibling that is a heading of level at most L, and this markup is
  cut by the length limit of the parser. Both parsers agree on it. On the page with the
  headings H2 "A", H3 "B", H2 "C" two sections of level 2 come out: "A" runs up to "C" and
  holds the content of "B", and "C" holds its heading alone.
\<close>

theorem section_content_span:
  "(i < length (querySelectorAllHeadings container) \<longrightarrow>
     (let sites = querySelectorAllHeadings container; site = sites ! i; heading = snd (fst site);
          L = the (getHeadingLevelFromTag (tagNameOf heading));
          nodes = (if o_includeHeadingInContent opts then [heading] else [])
                  @ takeWhile (\<lambda>n. \<not> endsSection L n) (map snd (snd site))
      in getHeadingLevelFromTag (tagNameOf heading) = Some L \<and>
         extractSectionContent outer opts site =
           applyContentLimit (o_maxContentLength opts) (concat (map outer nodes)) \<and>
         extractSectionContentService outer opts site (map fst sites) i L =
           (if nodes = [] then [] else applyContentLimit (o_maxContentLength opts) (concat (map outer nodes)))))
   \<and> map (\<lambda>s. (level s, titleText s, contentHtml s))
       (sections (parseFromContainer (\<lambda>i. examplePlatform) plainMarkup (parserOptions defaultOptions)
          exampleContainer exampleUrl))
     = [(2, ''A'', ''<h2>A</h2><p>a</p><h3>B</h3><p>b</p>''), (3, ''B'', ''<h3>B</h3><p>b</p>''),
        (2, ''C'', ''<h2>C</h2>'')]
   \<and> map (\<lambda>s. (level s, titleText s, contentHtml s))
       (sections (parseFromElement (\<lambda>i. examplePlatform) plainMarkup (serviceOptions defaultOptions)
          exampleContainer exampleUrl))
     = [(2, ''A'', ''<h2>A</h2><p>a</p><h3>B</h3><p>b</p>''), (3, ''B'', ''<h3>B</h3><p>b</p>''),
        (2, ''C'', ''<h2>C</h2>'')]"
proof (intro conjI impI)
  assume i: "i < length (querySelectorAllHeadings container)"
  define site where "site = querySelectorAllHeadings container ! i"
  from i have "site \<in> set (headingSites [] 0 (childNodes container))"
    by (simp add: site_def querySelectorAllHeadings_def)
  from matchesHeadingSelector_level [OF headingSites_level [OF this]]
  obtain L where L: "getHeadingLevelFromTag (tagNameOf (snd (fst site))) = Some L" by blast
  have 1: "extractSectionContent outer opts site =
      applyContentLimit (o_maxContentLength opts) (concat (map outer
        ((if o_includeHeadingInContent opts then [snd (fst site)] else [])
          @ takeWhile (\<lambda>n. \<not> endsSection L n) (map snd (snd site)))))"
    by (simp add: extractSectionContent_def L Let_def collectUntilHeading_takeWhile)
  have 2: "collectSectionNodes (findNextRelevantHeading hs i L) L (snd site)
      = takeWhile (\<lambda>n. \<not> endsSection L n) (map snd (snd site))" for hs
    by (rule collectSectionNodes_takeWhile) (rule findNextRelevantHeading_ends)
  have 3: "extractSectionContentService outer opts site hs i L =
      (let nodes = (if o_includeHeadingInContent opts then [snd (fst site)] else [])
          @ takeWhile (\<lambda>n. \<not> endsSection L n) (map snd (snd site))
       in if nodes = [] then [] else applyContentLimit (o_maxContentLength opts) (concat (map outer nodes)))" for hs
    by (simp add: extractSectionContentService_def nodesToHtmlString_def 2 Let_def)
  from L 1 3 show "(let sites = querySelectorAllHeadings container; site = sites ! i; heading = snd (fst site);
          L = the (getHeadingLevelFromTag (tagNameOf heading));
          nodes = (if o_includeHeadingInContent opts then [heading] else [])
                  @ takeWhile (\<lambda>n. \<not> endsSection L n) (map snd (snd site))
      in getHeadingLevelFromTag (tagNameOf heading) = Some L \<and>
         extractSectionContent outer opts site =
           applyContentLimit (o_maxContentLength opts) (concat (map outer nodes)) \<and>
         extractSectionContentService outer opts site (map fst sites) i L =
           (if nodes = [] then [] else applyContentLimit (o_maxContentLength opts) (concat (map outer nodes))))"
    unfolding site_def Let_def by simp
next
  show "map (\<lambda>s. (level s, titleText s, contentHtml s))
       (sections (parseFromContainer (\<lambda>i. examplePlatform) plainMarkup (parserOptions defaultOptions)
          exampleContainer exampleUrl))
     = [(2, ''A'', ''<h2>A</h2><p>a</p><h3>B</h3><p>b</p>''), (3, ''B'', ''<h3>B</h3><p>b</p>''),
        (2, ''C'', ''<h2>C</h2>'')]"
    by code_simp
next
  show "map (\<lambda>s. (level s, titleText s, contentHtml s))
       (sections (parseFromElement (\<lambda>i. examplePlatform) plainMarkup (serviceOptions defaultOptions)
          exampleContainer exampleUrl))
     = [(2, ''A'', ''<h2>A</h2><p>a</p><h3>B</h3><p>b</p>''), (3, ''B'', ''<h3>B</h3><p>b</p>''),
        (2, ''C'', ''<h2>C</h2>'')]"
    by code_simp
qed

theorem section_content_span_witness:
  "0 < length (querySelectorAllHeadings exampleContainer) \<and>
   extractSectionContent plainMarkup (parserOptions defaultOptions)
     (querySelectorAllHeadings exampleContainer ! 0)
   = applyContentLimit 50000 (concat (map plainMarkup [headingA, paraA, headingB, paraB]))"
proof -
  have len: "0 < length (querySelectorAllHeadings exampleContainer)"
    by code_simp
  have site: "querySelectorAllHeadings exampleContainer ! 0 =
      (([0], headingA), [([1], paraA), ([2], headingB), ([3], paraB), ([4], headingC)])"
    by code_simp
  have L: "getHeadingLevelFromTag (tagNameOf headingA) = Some 2"
    by code_simp
  have ends: "\<not> endsSection 2 paraA" "\<not> endsSection 2 headingB" "\<not> endsSection 2 paraB"
    "endsSection 2 headingC"
    by code_simp+
  have opts: "o_includeHeadingInContent (parserOptions defaultOptions)"
    "o_maxContentLength (parserOptions defaultOptions) = 50000"
    by (simp_all add: parserOptions_def defaultOptions_def)
  from section_content_span [of 0 exampleContainer "parserOptions defaultOptions" plainMarkup] len
  show ?thesis
    by (simp add: Let_def site L ends opts)
qed

text \<open>
  The claim as first stated leaves the length limit out: with a limit of 5 characters the
  section of "C" is not the markup of its heading.
\<close>

theorem section_content_span_counterexample:
  "snd (querySelectorAllHeadings exampleContainer ! 2) = [] \<and>
   snd (fst (querySelectorAllHeadings exampleContainer ! 2)) = headingC \<and>
   plainMarkup headingC = ''<h2>C</h2>'' \<and>
   extractSectionContent plainMarkup (parserOptions (defaultOptions\<lparr>maxContentLength := Some 5\<rparr>))
     (querySelectorAllHeadings exampleContainer ! 2) = ''<h2>C...''"
  by code_simp

section \<open>The length limit\<close>

text \<open>
  Claim C9, as amended. With a positive configured maximum (50000 when none is given), markup
  longer than the maximum becomes its first \<^verbatim>\<open>maxContentLength\<close> characters followed by
  \<^verbatim>\<open>...\<close>, and markup at or below the maximum is left as it is; the cut is a total
  function and throws nothing. A configured maximum of 0 switches the limit off in the
  parser of the domain and is replaced by 50000 in the service.
\<close>

theorem content_length_cap:
  "(0 < o_maxContentLength opts \<longrightarrow>
      (let markup = extractSectionContent outer (opts\<lparr>o_maxContentLength := 0\<rparr>) site in
       extractSectionContent outer opts site =
         (if int (length markup) > o_maxContentLength opts
          then take (nat (o_maxContentLength opts)) markup @ ''...'' else markup)) \<and>
      (let markup = concat (map outer nodes) in
       nodesToHtmlString outer opts nodes =
         (if int (length markup) > o_maxContentLength opts
          then take (nat (o_maxContentLength opts)) markup @ ''...'' else markup))) \<and>
   extractSectionContent outer (opts\<lparr>o_maxContentLength := 0\<rparr>) site =
     concat (map outer ((if o_includeHeadingInContent opts then [snd (fst site)] else []) @
       collectUntilHeading (case getHeadingLevelFromTag (tagNameOf (snd (fst site))) of
                              Some l \<Rightarrow> l | None \<Rightarrow> 0) (snd site))) \<and>
   o_maxContentLength (parserOptions (given\<lparr>maxContentLength := None\<rparr>)) = 50000 \<and>
   o_maxContentLength (serviceOptions (given\<lparr>maxContentLength := None\<rparr>)) = 50000 \<and>
   o_maxContentLength (parserOptions (given\<lparr>maxContentLength := Some 0\<rparr>)) = 0 \<and>
   o_maxContentLength (serviceOptions (given\<lparr>maxContentLength := Some 0\<rparr>)) = 50000"
  by (auto simp: extractSectionContent_def nodesToHtmlString_def applyContentLimit_def Let_def
      parserOptions_def serviceOptions_def)

theorem content_length_cap_witness:
  "0 < o_maxContentLength (parserOptions (defaultOptions\<lparr>maxContentLength := Some 4\<rparr>)) \<and>
   extractSectionContent plainMarkup (parserOptions (defaultOptions\<lparr>maxContentLength := Some 4\<rparr>))
     (([4], headingC), []) = ''<h2>...'' \<and>
   nodesToHtmlString plainMarkup (parserOptions (defaultOptions\<lparr>maxContentLength := Some 4\<rparr>))
     [headingC] = ''<h2>...''"
proof -
  have m: "o_maxContentLength (parserOptions (defaultOptions\<lparr>maxContentLength := Some 4\<rparr>)) = 4"
    by (simp add: parserOptions_def defaultOptions_def)
  have z: "(parserOptions (defaultOptions\<lparr>maxContentLength := Some 4\<rparr>))\<lparr>o_maxContentLength := 0\<rparr>
      = parserOptions (defaultOptions\<lparr>maxContentLength := Some 0\<rparr>)"
    by (simp add: parserOptions_def defaultOptions_def)
  have markup: "extractSectionContent plainMarkup (parserOptions (defaultOptions\<lparr>maxContentLength := Some 0\<rparr>))
      (([4], headingC), []) = ''<h2>C</h2>''"
    by code_simp
  have markup2: "concat (map plainMarkup [headingC]) = ''<h2>C</h2>''"
    by code_simp
  from content_length_cap [of "parserOptions (defaultOptions\<lparr>maxContentLength := Some 4\<rparr>)"
      plainMarkup "(([4], headingC), [])" "[headingC]"]
  show ?thesis
    unfolding m z markup Let_def markup2 by simp
qed

text \<open>
  The claim as first stated fails at a configured maximum of 0: the markup is longer than
  the maximum and is returned whole.
\<close>

theorem content_length_cap_counterexample:
  "o_maxContentLength (parserOptions (defaultOptions\<lparr>maxContentLength := Some 0\<rparr>)) = 0 \<and>
   length (plainMarkup headingC) = 10 \<and>
   extractSectionContent plainMarkup (parserOptions (defaultOptions\<lparr>maxContentLength := Some 0\<rparr>))
     (([4], headingC), []) = plainMarkup headingC \<and>
   extractSectionContent plainMarkup (parserOptions (defaultOptions\<lparr>maxContentLength := Some 0\<rparr>))
     (([4], headingC), []) \<noteq> take 0 (plainMarkup headingC) @ ''...''"
  by code_simp

section \<open>One failing heading\<close>

lemma parseLoop_outcomes:
  "parseLoop pf outer opts url i hs secs warns =
     (secs @ concat (map (\<lambda>jh. case parseHeadingSection (pf (fst jh)) outer opts (snd jh) url of
                                 Inr s \<Rightarrow> [s] | Inl e \<Rightarrow> []) (enumerate i hs)),
      warns @ concat (map (\<lambda>jh. case parseHeadingSection (pf (fst jh)) outer opts (snd jh) url of
                                  Inr s \<Rightarrow> []
                                | Inl e \<Rightarrow> [''Failed to parse heading '' @
                                    number_to_string (int (fst jh) + 1) @ '': '' @ errorMessage e])
                            (enumerate i hs)))"
  by (induction hs arbitrary: i secs warns) (auto split: sum.splits)

lemma parseLoopService_outcomes:
  "parseLoopService pf outer opts url all i hs secs warns =
     (secs @ concat (map (\<lambda>jh. case parseHeadingSectionService (pf (fst jh)) outer opts (snd jh) all
                                        (fst jh) url of
                                 Inr s \<Rightarrow> [s] | Inl e \<Rightarrow> []) (enumerate i hs)),
      warns @ concat (map (\<lambda>jh. case parseHeadingSectionService (pf (fst jh)) outer opts (snd jh) all
                                         (fst jh) url of
                                  Inr s \<Rightarrow> []
                                | Inl e \<Rightarrow> [''Failed to parse heading at index '' @
                                    number_to_string (int (fst jh)) @ '': '' @ serviceErrorMessage e])
                            (enumerate i hs)))"
  by (induction hs arbitrary: i secs warns) (auto split: sum.splits)

lemma outcomes_length:
  "length (concat (map (\<lambda>x. case f x of Inr s \<Rightarrow> [s] | Inl e \<Rightarrow> []) xs)) +
   length (concat (map (\<lambda>x. case f x of Inr s \<Rightarrow> [] | Inl e \<Rightarrow> [g x e]) xs)) = length xs"
  by (induction xs) (auto split: sum.splits)

text \<open>
  Claim C5. Both parsers return a result for every container: each heading contributes
  either its section or one warning, in document order, so a heading whose section cannot
  be constructed is recorded as a warning, left out of the sections, and the headings after
  it are still parsed.
\<close>

theorem parse_isolates_failures:
  "(let hs = querySelectorAllHeadings container;
        r = parseFromContainer pf outer opts container url
    in sections r =
         concat (map (\<lambda>jh. case parseHeadingSection (pf (fst jh)) outer opts (snd jh) url of
                              Inr s \<Rightarrow> [s] | Inl e \<Rightarrow> []) (enumerate 0 hs)) \<and>
       warnings r =
         concat (map (\<lambda>jh. case parseHeadingSection (pf (fst jh)) outer opts (snd jh) url of
                              Inr s \<Rightarrow> []
                            | Inl e \<Rightarrow> [''Failed to parse heading '' @
                                number_to_string (int (fst jh) + 1) @ '': '' @ errorMessage e])
                   (enumerate 0 hs)) \<and>
       length (sections r) + length (warnings r) = length hs) \<and>
   (let found = findContentContainer opts root;
        hs = findHeadingElements (case found of None \<Rightarrow> root | Some c \<Rightarrow> snd c);
        r = parseFromElement pf outer opts root url
    in sections r =
         concat (map (\<lambda>jh. case parseHeadingSectionService (pf (fst jh)) outer opts (snd jh)
                                   (map fst hs) (fst jh) url of
                              Inr s \<Rightarrow> [s] | Inl e \<Rightarrow> []) (enumerate 0 hs)) \<and>
       warnings r =
         (case found of None \<Rightarrow> [''Could not find main content container, using document body'']
          | Some c \<Rightarrow> []) @
         (if hs = [] then [''No heading elements found in the content'']
          else concat (map (\<lambda>jh. case parseHeadingSectionService (pf (fst jh)) outer opts (snd jh)
                                         (map fst hs) (fst jh) url of
                              Inr s \<Rightarrow> []
                            | Inl e \<Rightarrow> [''Failed to parse heading at index '' @
                                number_to_string (int (fst jh)) @ '': '' @ serviceErrorMessage e])
                   (enumerate 0 hs))))"
proof (rule conjI)
  show "(let hs = querySelectorAllHeadings container;
        r = parseFromContainer pf outer opts container url
    in sections r =
         concat (map (\<lambda>jh. case parseHeadingSection (pf (fst jh)) outer opts (snd jh) url of
                              Inr s \<Rightarrow> [s] | Inl e \<Rightarrow> []) (enumerate 0 hs)) \<and>
       warnings r =
         concat (map (\<lambda>jh. case parseHeadingSection (pf (fst jh)) outer opts (snd jh) url of
                              Inr s \<Rightarrow> []
                            | Inl e \<Rightarrow> [''Failed to parse heading '' @
                                number_to_string (int (fst jh) + 1) @ '': '' @ errorMessage e])
                   (enumerate 0 hs)) \<and>
       length (sections r) + length (warnings r) = length hs)"
    unfolding Let_def parseFromContainer_def
    by (simp add: parseLoop_outcomes outcomes_length)
next
  show "(let found = findContentContainer opts root;
        hs = findHeadingElements (case found of None \<Rightarrow> root | Some c \<Rightarrow> snd c);
        r = parseFromElement pf outer opts root url
    in sections r =
         concat (map (\<lambda>jh. case parseHeadingSectionService (pf (fst jh)) outer opts (snd jh)
                                   (map fst hs) (fst jh) url of
                              Inr s \<Rightarrow> [s] | Inl e \<Rightarrow> []) (enumerate 0 hs)) \<and>
       warnings r =
         (case found of None \<Rightarrow> [''Could not find main content container, using document body'']
          | Some c \<Rightarrow> []) @
         (if hs = [] then [''No heading elements found in the content'']
          else concat (map (\<lambda>jh. case parseHeadingSectionService (pf (fst jh)) outer opts (snd jh)
                                         (map fst hs) (fst jh) url of
                              Inr s \<Rightarrow> []
                            | Inl e \<Rightarrow> [''Failed to parse heading at index '' @
                                number_to_string (int (fst jh)) @ '': '' @ serviceErrorMessage e])
                   (enumerate 0 hs))))"
    unfolding Let_def parseFromElement_def
    by (simp add: parseLoopService_outcomes)
qed

theorem parse_isolates_failures_witness:
  "map titleText (sections (parseFromContainer (\<lambda>i. examplePlatform) plainMarkup
      (parserOptions defaultOptions) brokenContainer exampleUrl)) = [''A'', ''C''] \<and>
   warnings (parseFromContainer (\<lambda>i. examplePlatform) plainMarkup
      (parserOptions defaultOptions) brokenContainer exampleUrl)
     = [''Failed to parse heading 2: Title text is required''] \<and>
   map titleText (sections (parseFromElement (\<lambda>i. examplePlatform) plainMarkup
      (serviceOptions defaultOptions) brokenContainer exampleUrl)) = [''A'', ''C''] \<and>
   warnings (parseFromElement (\<lambda>i. examplePlatform) plainMarkup
      (serviceOptions defaultOptions) brokenContainer exampleUrl)
     = [''Could not find main content container, using document body'',
        ''Failed to parse heading at index 1: Heading element has no text content''] \<and>
   length (sections (parseFromContainer (\<lambda>i. examplePlatform) plainMarkup
      (parserOptions defaultOptions) brokenContainer exampleUrl)) +
   length (warnings (parseFromContainer (\<lambda>i. examplePlatform) plainMarkup
      (parserOptions defaultOptions) brokenContainer exampleUrl))
     = length (querySelectorAllHeadings brokenContainer)"
proof -
  have 1: "map titleText (sections (parseFromContainer (\<lambda>i. examplePlatform) plainMarkup
      (parserOptions defaultOptions) brokenContainer exampleUrl)) = [''A'', ''C'']"
    by code_simp
  have 2: "warnings (parseFromContainer (\<lambda>i. examplePlatform) plainMarkup
      (parserOptions defaultOptions) brokenContainer exampleUrl)
     = [''Failed to parse heading 2: Title text is required'']"
    by code_simp
  have 3: "map titleText (sections (parseFromElement (\<lambda>i. examplePlatform) plainMarkup
      (serviceOptions defaultOptions) brokenContainer exampleUrl)) = [''A'', ''C'']"
    by code_simp
  have 4: "warnings (parseFromElement (\<lambda>i. examplePlatform) plainMarkup
      (serviceOptions defaultOptions) brokenContainer exampleUrl)
     = [''Could not find main content container, using document body'',
        ''Failed to parse heading at index 1: Heading element has no text content'']"
    by code_simp
  from parse_isolates_failures [of brokenContainer "\<lambda>i. examplePlatform" plainMarkup
      "parserOptions defaultOptions" exampleUrl]
  have 5: "length (sections (parseFromContainer (\<lambda>i. examplePlatform) plainMarkup
      (parserOptions defaultOptions) brokenContainer exampleUrl)) +
   length (warnings (parseFromContainer (\<lambda>i. examplePlatform) plainMarkup
      (parserOptions defaultOptions) brokenContainer exampleUrl))
     = length (querySelectorAllHeadings brokenContainer)"
    unfolding Let_def by blast
  from 1 2 3 4 5 show ?thesis by blast
qed

section \<open>Duplicate titles in one pass\<close>

lemma filterLoop_firstOccurrences:
  "filterLoop xs acc seen =
     acc @ firstOccurrences (\<lambda>s. normalizeText (titleText s))
             (filter (\<lambda>s. isValidSection s \<and> normalizeText (titleText s) \<notin> seen) xs)"
proof (induction xs arbitrary: acc seen)
  case Nil
  show ?case by simp
next
  case (Cons x xs)
  let ?key = "\<lambda>s. normalizeText (titleText s)"
  show ?case
  proof (cases "isValidSection x \<and> ?key x \<notin> seen")
    case False
    then show ?thesis by (auto simp: Cons.IH Let_def)
  next
    case True
    have eq: "filter (\<lambda>s. isValidSection s \<and> ?key s \<notin> insert (?key x) seen) xs
            = filter (\<lambda>y. ?key y \<noteq> ?key x) (filter (\<lambda>s. isValidSection s \<and> ?key s \<notin> seen) xs)"
      by (auto intro: filter_cong)
    from True have "filterLoop (x # xs) acc seen
        = filterLoop xs (acc @ [x]) (insert (?key x) seen)"
      by (simp add: Let_def)
    also have "\<dots> = (acc @ [x]) @ firstOccurrences ?key
        (filter (\<lambda>s. isValidSection s \<and> ?key s \<notin> insert (?key x) seen) xs)"
      by (rule Cons.IH)
    also have "\<dots> = acc @ firstOccurrences ?key
        (filter (\<lambda>s. isValidSection s \<and> ?key s \<notin> seen) (x # xs))"
      using True by (simp only: eq) simp
    finally show ?thesis .
  qed
qed

lemma firstOccurrences_subset: "set (firstOccurrences key xs) \<subseteq> set xs"
  by (induction key xs rule: firstOccurrences.induct) auto

lemma firstOccurrences_distinct: "distinct (map key (firstOccurrences key xs))"
proof (induction key xs rule: firstOccurrences.induct)
  case (1 key)
  show ?case by simp
next
  case (2 key x xs)
  have "key x \<notin> key ` set (firstOccurrences key (filter (\<lambda>y. key y \<noteq> key x) xs))"
    using firstOccurrences_subset [of key "filter (\<lambda>y. key y \<noteq> key x) xs"] by auto
  with 2 show ?case by simp
qed

lemma firstOccurrences_subseq: "subseq (firstOccurrences key xs) xs"
proof (induction key xs rule: firstOccurrences.induct)
  case (1 key)
  show ?case by simp
next
  case (2 key x xs)
  have "subseq (filter (\<lambda>y. key y \<noteq> key x) xs) xs" by simp
  with 2 have "subseq (firstOccurrences key (filter (\<lambda>y. key y \<noteq> key x) xs)) xs"
    using subseq_order.order_trans by blast
  then show ?case by simp
qed

text \<open>
  Claim C4, as amended. In one pass the validator keeps, of the valid sections that share a
  normalised title (white space collapsed and trimmed, letter case kept), the first and
  drops the later ones; of the titles \<^verbatim>\<open>"Intro"\<close> and \<^verbatim>\<open>"  Intro  "\<close> exactly one is
  kept.
\<close>

theorem validator_keeps_first_title:
  "validateAndFilterSections secs =
     firstOccurrences (\<lambda>s. normalizeText (titleText s)) (filter isValidSection secs) \<and>
   distinct (map (\<lambda>s. normalizeText (titleText s)) (validateAndFilterSections secs)) \<and>
   subseq (validateAndFilterSections secs) (filter isValidSection secs) \<and>
   validateAndFilterSections [exampleSection ''Intro'', exampleSection ''  Intro  '']
     = [exampleSection ''Intro'']"
proof -
  have 1: "validateAndFilterSections secs =
     firstOccurrences (\<lambda>s. normalizeText (titleText s)) (filter isValidSection secs)"
    by (simp add: validateAndFilterSections_def filterLoop_firstOccurrences)
  have 2: "validateAndFilterSections [exampleSection ''Intro'', exampleSection ''  Intro  '']
     = [exampleSection ''Intro'']"
    by code_simp
  from 1 2 show ?thesis
    by (simp add: firstOccurrences_distinct firstOccurrences_subseq)
qed

theorem validator_keeps_first_title_witness:
  "distinct (map (\<lambda>s. normalizeText (titleText s))
     (validateAndFilterSections
        [exampleSection ''Intro'', exampleSection ''  Intro  '', exampleSection ''Setup'']))"
  using validator_keeps_first_title
    [of "[exampleSection ''Intro'', exampleSection ''  Intro  '', exampleSection ''Setup'']"]
  by blast

text \<open>
  The claim as first stated takes titles that differ in letter case for duplicates; the
  normalisation keeps the case, and both \<^verbatim>\<open>"Intro"\<close> and \<^verbatim>\<open>"  intro  "\<close> are kept.
\<close>

theorem validator_keeps_first_title_counterexample:
  "length (validateAndFilterSections [exampleSection ''Intro'', exampleSection ''  intro  '']) = 2"
  by code_simp

section \<open>Adding a section\<close>


lemma handleError_code:
  "\<exists>c m d. handleError e = Failure c m d"
  by (cases e) simp_all



section \<open>Navigation changes\<close>

lemma runCallbacks_calls:
  "fst (runCallbacks cbs k url) = map (\<lambda>i. (i, url)) [k..<k + length cbs]"
proof (induction cbs arbitrary: k)
  case Nil
  show ?case by simp
next
  case (Cons c cbs)
  have "[k..<k + length (c # cbs)] = k # [Suc k..<Suc k + length cbs]"
    by (simp add: upt_rec)
  with Cons [of "Suc k"] show ?case
    by (simp add: Let_def split: option.splits)
qed

lemma notifications_same_url:
  "lastUrl m = url \<Longrightarrow> notifications (replicate n url) m = (m, [])"
  by (induction n) (simp_all add: checkNavigationChange_def Let_def)

lemma lastUrl_after_check: "lastUrl (fst (checkNavigationChange url m)) = url"
  by (simp add: checkNavigationChange_def)

text \<open>
  Claim C7. A check calls the navigation callbacks only when the URL it finds differs from
  the last observed URL, which it then updates; each callback is then called once, in
  order. A second notification with the same URL calls nothing, so two notifications (or
  any number of them) with an unchanged URL call each callback at most once.
\<close>

theorem navigation_idempotent:
  "checkNavigationChange url (fst (checkNavigationChange url m))
     = (fst (checkNavigationChange url m), [], []) \<and>
   lastUrl (fst (checkNavigationChange url m)) = url \<and>
   fst (snd (checkNavigationChange url m)) =
     (if url = lastUrl m then [] else map (\<lambda>i. (i, url)) [0..<length (navigationCallbacks m)]) \<and>
   snd (notifications [url, url] m) = fst (snd (checkNavigationChange url m)) \<and>
   snd (notifications (replicate (Suc n) url) m) = fst (snd (checkNavigationChange url m)) \<and>
   distinct (snd (notifications (replicate (Suc n) url) m)) \<and>
   length (snd (notifications (replicate (Suc n) url) m)) \<le> length (navigationCallbacks m)"
proof -
  have 1: "checkNavigationChange url (fst (checkNavigationChange url m))
     = (fst (checkNavigationChange url m), [], [])"
    by (simp add: checkNavigationChange_def)
  have 2: "fst (snd (checkNavigationChange url m)) =
     (if url = lastUrl m then [] else map (\<lambda>i. (i, url)) [0..<length (navigationCallbacks m)])"
    by (simp add: checkNavigationChange_def runCallbacks_calls)
  have 3: "snd (notifications (replicate (Suc k) url) m) = fst (snd (checkNavigationChange url m))" for k
    using notifications_same_url [OF lastUrl_after_check, of k url m]
    by (simp add: Let_def)
  have 4: "snd (notifications [url, url] m) = fst (snd (checkNavigationChange url m))"
    using 3 [of 1] by (simp add: numeral_2_eq_2)
  have 5: "distinct (snd (notifications (replicate (Suc n) url) m))"
    unfolding 3 2 by (simp add: distinct_map inj_on_def)
  have 6: "length (snd (notifications (replicate (Suc n) url) m)) \<le> length (navigationCallbacks m)"
    unfolding 3 2 by simp
  from 1 2 3 [of n] 4 5 6 lastUrl_after_check [of url m] show ?thesis
    by blast
qed

theorem navigation_idempotent_witness:
  "snd (notifications [''https://deepwiki.com/b'', ''https://deepwiki.com/b''] exampleMonitor)
     = [(0, ''https://deepwiki.com/b''), (1, ''https://deepwiki.com/b'')] \<and>
   snd (checkNavigationChange ''https://deepwiki.com/b''
          (fst (checkNavigationChange ''https://deepwiki.com/b'' exampleMonitor))) = ([], [])"
proof -
  have "''https://deepwiki.com/b'' \<noteq> lastUrl exampleMonitor"
    by (simp add: exampleMonitor_def)
  moreover have "length (navigationCallbacks exampleMonitor) = 2"
    by (simp add: exampleMonitor_def)
  moreover have "[0..<2] = [0, Suc 0]"
    by (simp add: upt_rec)
  ultimately show ?thesis
    using navigation_idempotent [of "''https://deepwiki.com/b''" exampleMonitor 1]
    by simp
qed

section \<open>Waiting for an element\<close>

lemma waitStep_settled:
  "resolved s \<noteq> None \<Longrightarrow> \<not> observing s \<Longrightarrow> \<not> timerArmed s \<Longrightarrow> waitStep e s = s"
  by (cases e) auto

lemma waitRun_settled:
  "resolved s \<noteq> None \<Longrightarrow> \<not> observing s \<Longrightarrow> \<not> timerArmed s \<Longrightarrow> waitRun es s = s"
  by (induction es) (simp_all add: waitRun_def waitStep_settled)

lemma waitRun_Cons: "waitRun (e # es) s = waitRun es (waitStep e s)"
  by (simp add: waitRun_def)

lemma waitRun_pending:
  assumes "observing s" "timerArmed s" "resolved s = None"
  shows "waitRun es s =
     (case find (\<lambda>e. e = Mutation True \<or> e = TimerFires) es of
        None \<Rightarrow> s
      | Some (Mutation b) \<Rightarrow> s\<lparr>timerArmed := False, observing := False, resolved := Some True\<rparr>
      | Some TimerFires \<Rightarrow> s\<lparr>timerArmed := False, observing := False, resolved := Some False\<rparr>)"
  using assms
proof (induction es arbitrary: s)
  case Nil
  show ?case by (simp add: waitRun_def)
next
  case (Cons e es)
  show ?case
  proof (cases e)
    case (Mutation b)
    show ?thesis
    proof (cases b)
      case True
      with Mutation Cons.prems show ?thesis
        by (simp add: waitRun_Cons waitRun_settled resolvePromise_def Let_def)
    next
      case False
      with Mutation Cons.prems have "waitStep e s = s" by (simp add: Let_def)
      with Cons False Mutation show ?thesis by (simp add: waitRun_Cons)
    qed
  next
    case TimerFires
    with Cons.prems show ?thesis
      by (simp add: waitRun_Cons waitRun_settled resolvePromise_def)
  qed
qed

text \<open>
  Claim C6. \<^verbatim>\<open>waitForElement\<close> resolves to true at once when the selector matches
  already. Otherwise the first of a mutation under which the selector matches and the
  firing of the timer (set to the timeout, 10000 ms by default) decides: true for the
  mutation, false for the timer. Whenever the promise is resolved the observer is
  disconnected and the timer is off, later events change nothing, and no observer callback
  has run after the resolution.
\<close>

theorem waitForElement_settles_once:
  "(let s = waitRun events (waitForElement matchesNow timeout)
    in resolved s =
         (if matchesNow then Some True
          else case find (\<lambda>e. e = Mutation True \<or> e = TimerFires) events of
                 None \<Rightarrow> None
               | Some (Mutation b) \<Rightarrow> Some True
               | Some TimerFires \<Rightarrow> Some False) \<and>
       (resolved s \<noteq> None \<longrightarrow> \<not> observing s \<and> \<not> timerArmed s) \<and>
       lateCallbacks s = 0 \<and>
       (resolved s \<noteq> None \<longrightarrow> waitRun later s = s) \<and>
       timerDelay s = (case timeout of None \<Rightarrow> 10000 | Some t \<Rightarrow> t))"
proof (cases matchesNow)
  case True
  then have "waitRun es (waitForElement matchesNow timeout) = waitForElement matchesNow timeout" for es
    by (intro waitRun_settled) (simp_all add: waitForElement_def Let_def)
  with True show ?thesis
    by (simp add: Let_def) (simp add: waitForElement_def Let_def)
next
  case False
  define s0 where "s0 = waitForElement matchesNow timeout"
  from False have p: "observing s0" "timerArmed s0" "resolved s0 = None"
    by (simp_all add: s0_def waitForElement_def Let_def)
  have init: "lateCallbacks s0 = 0" "timerDelay s0 = (case timeout of None \<Rightarrow> 10000 | Some t \<Rightarrow> t)"
    by (simp_all add: s0_def waitForElement_def Let_def)
  note run = waitRun_pending [OF p, of events]
  have "(let s = waitRun events s0
    in resolved s =
         (case find (\<lambda>e. e = Mutation True \<or> e = TimerFires) events of
                 None \<Rightarrow> None
               | Some (Mutation b) \<Rightarrow> Some True
               | Some TimerFires \<Rightarrow> Some False) \<and>
       (resolved s \<noteq> None \<longrightarrow> \<not> observing s \<and> \<not> timerArmed s) \<and>
       lateCallbacks s = 0 \<and>
       (resolved s \<noteq> None \<longrightarrow> waitRun later s = s) \<and>
       timerDelay s = (case timeout of None \<Rightarrow> 10000 | Some t \<Rightarrow> t))"
  proof (cases "find (\<lambda>e. e = Mutation True \<or> e = TimerFires) events")
    case None
    with p init show ?thesis
      by (simp add: Let_def run)
  next
    case (Some e)
    with p init show ?thesis
      by (cases e) (simp_all add: Let_def run waitRun_settled)
  qed
  with False show ?thesis
    by (simp add: s0_def)
qed

theorem waitForElement_settles_once_witness:
  "resolved (waitRun [Mutation False, TimerFires, Mutation True] (waitForElement False None))
     = Some False \<and>
   \<not> observing (waitRun [Mutation False, TimerFires, Mutation True] (waitForElement False None)) \<and>
   lateCallbacks (waitRun [Mutation False, TimerFires, Mutation True] (waitForElement False None)) = 0 \<and>
   resolved (waitRun [Mutation False, Mutation True, TimerFires] (waitForElement False None))
     = Some True \<and>
   \<not> observing (waitRun [Mutation False, Mutation True, TimerFires] (waitForElement False None))"
  using waitForElement_settles_once [of "[Mutation False, TimerFires, Mutation True]" False None "[]"]
    waitForElement_settles_once [of "[Mutation False, Mutation True, TimerFires]" False None "[]"]
  by (auto simp: Let_def)

section \<open>One initialisation at a time\<close>

lemma initStep_invariant:
  assumes "length (inFlight s) \<le> 1" "isInitializing s = (inFlight s \<noteq> [])"
  shows "length (inFlight (initStep e s)) \<le> 1 \<and>
         isInitializing (initStep e s) = (inFlight (initStep e s) \<noteq> [])"
proof (cases e)
  case (Invoke relevant container)
  with assms show ?thesis
    by (auto simp: Let_def split: outcome.splits bool.splits)
next
  case (Settle k result)
  show ?thesis
  proof (cases "inFlight s")
    case Nil
    with Settle assms show ?thesis by simp
  next
    case (Cons p ps)
    with assms have ps: "ps = []" by simp
    show ?thesis
    proof (cases k)
      case 0
      with Settle Cons ps assms show ?thesis
        by (cases p; cases result) (auto simp: finishPass_def split: bool.splits)
    next
      case (Suc j)
      with Settle Cons ps assms show ?thesis by simp
    qed
  qed
qed

lemma initRun_invariant:
  assumes "length (inFlight s) \<le> 1" "isInitializing s = (inFlight s \<noteq> [])"
  shows "length (inFlight (initRun events s)) \<le> 1 \<and>
         isInitializing (initRun events s) = (inFlight (initRun events s) \<noteq> [])"
  using assms
proof (induction events arbitrary: s)
  case Nil
  then show ?case by (simp add: initRun_def)
next
  case (Cons e events)
  from initStep_invariant [OF Cons.prems, of e]
  have "length (inFlight (initRun events (initStep e s))) \<le> 1 \<and>
     isInitializing (initRun events (initStep e s)) = (inFlight (initRun events (initStep e s)) \<noteq> [])"
    by (intro Cons.IH) simp_all
  then show ?case by (simp add: initRun_def)
qed


lemma settle_throws_ends_pass:
  assumes "inFlight s = [p]"
  shows "initStep (Settle 0 Throws) s = s\<lparr>isInitializing := False, inFlight := []\<rparr>"
  using assms by (cases p) (simp_all add: finishPass_def)

lemma settle_no_headings_ends_pass:
  assumes "inFlight s = [AwaitHeadings]"
  shows "initStep (Settle 0 (Returns False)) s = s\<lparr>isInitializing := False, inFlight := []\<rparr>"
  using assms by (simp add: finishPass_def)

lemma settle_extraction_ends_pass:
  assumes "inFlight s = [AwaitExtraction]"
  shows "\<not> isInitializing (initStep (Settle 0 result) s) \<and> inFlight (initStep (Settle 0 result) s) = []"
  using assms by (cases result) (auto simp: finishPass_def split: bool.splits)

lemma settle_idle:
  assumes "inFlight s = []"
  shows "initStep (Settle k result) s = s"
  using assms by simp

lemma settle_advances:
  assumes "inFlight s = [p]"
  shows "(inFlight (initStep (Settle 0 result) s) = [] \<and> \<not> isInitializing (initStep (Settle 0 result) s)) \<or>
         (p = AwaitHeadings \<and> inFlight (initStep (Settle 0 result) s) = [AwaitStabilization]) \<or>
         (p = AwaitStabilization \<and> inFlight (initStep (Settle 0 result) s) = [AwaitExtraction])"
  using assms by (cases p; cases result) (auto simp: finishPass_def split: bool.splits)

lemma three_settles_end_pass:
  assumes "inFlight s = [p]"
  shows "\<not> isInitializing (initRun [Settle 0 r1, Settle 0 r2, Settle 0 r3] s) \<and>
         inFlight (initRun [Settle 0 r1, Settle 0 r2, Settle 0 r3] s) = []"
proof -
  let ?s1 = "initStep (Settle 0 r1) s"
  let ?s2 = "initStep (Settle 0 r2) ?s1"
  let ?s3 = "initStep (Settle 0 r3) ?s2"
  have run: "initRun [Settle 0 r1, Settle 0 r2, Settle 0 r3] s = ?s3"
    by (simp add: initRun_def)
  have ended: "inFlight t = [] \<and> \<not> isInitializing t \<Longrightarrow>
      inFlight (initStep (Settle 0 r) t) = [] \<and> \<not> isInitializing (initStep (Settle 0 r) t)" for t r
    by simp
  have ext: "inFlight t = [AwaitExtraction] \<Longrightarrow>
      inFlight (initStep (Settle 0 r) t) = [] \<and> \<not> isInitializing (initStep (Settle 0 r) t)" for t r
    using settle_extraction_ends_pass [of t r] by simp
  have stab: "inFlight t = [AwaitStabilization] \<Longrightarrow>
      (inFlight (initStep (Settle 0 r) t) = [] \<and> \<not> isInitializing (initStep (Settle 0 r) t)) \<or>
      inFlight (initStep (Settle 0 r) t) = [AwaitExtraction]" for t r
    using settle_advances [of t AwaitStabilization r] by auto
  from settle_advances [OF assms, of r1]
  consider (a) "inFlight ?s1 = [] \<and> \<not> isInitializing ?s1"
    | (b) "inFlight ?s1 = [AwaitStabilization]" | (c) "inFlight ?s1 = [AwaitExtraction]"
    by blast
  then have "inFlight ?s3 = [] \<and> \<not> isInitializing ?s3"
  proof cases
    case a
    from ended [OF ended [OF a]] show ?thesis .
  next
    case b
    from stab [OF b, of r2] show ?thesis
    proof
      assume "inFlight ?s2 = [] \<and> \<not> isInitializing ?s2"
      from ended [OF this] show ?thesis .
    next
      assume "inFlight ?s2 = [AwaitExtraction]"
      from ext [OF this] show ?thesis .
    qed
  next
    case c
    from ended [OF ext [OF c]] show ?thesis .
  qed
  with run show ?thesis by simp
qed

lemma full_pass_effects:
  assumes "inFlight s = [AwaitHeadings]"
  shows "effects (initRun [Settle 0 (Returns True), Settle 0 (Returns True), Settle 0 (Returns True)] s)
       = effects s @ [ExtractSections, RemoveControls, MountControls]"
  using assms by (simp add: initRun_def finishPass_def)

text \<open>
  Claim C8. In every state that the content script reaches from the loaded page at most one
  pass is in flight, and the flag \<^verbatim>\<open>isInitializing\<close> is set exactly while one is. A call of
  \<^verbatim>\<open>initialize\<close> while the flag is set changes nothing: no container is located, nothing
  is extracted or mounted. A call while it is clear goes on to locate the container. While
  a pass is running, an awaited promise that rejects ends the pass and clears the flag, at
  whichever await it is, and the next call goes on to locate the container; so does the
  answer that no heading was found, and so does the end of the extraction, whether the
  refresh of the controls completes or throws. Each settled await either ends the pass or
  moves it to the next await, so three of them end it; a pass whose awaits all succeed
  extracts, removes and mounts once.
\<close>

theorem initialize_one_pass_in_flight:
  "(let s = initRun events pageLoaded
    in length (inFlight s) \<le> 1 \<and>
       isInitializing s = (inFlight s \<noteq> []) \<and>
       (isInitializing s \<longrightarrow> initStep (Invoke relevant container) s = s) \<and>
       (\<not> isInitializing s \<longrightarrow>
          effects (initStep (Invoke (Returns True) container) s) = effects s @ [LocateContainer]) \<and>
       (isInitializing s \<longrightarrow>
          initStep (Settle 0 Throws) s = s\<lparr>isInitializing := False, inFlight := []\<rparr> \<and>
          effects (initStep (Invoke (Returns True) container) (initStep (Settle 0 Throws) s))
            = effects s @ [LocateContainer] \<and>
          (inFlight s = [AwaitHeadings] \<longrightarrow>
             initStep (Settle 0 (Returns False)) s = s\<lparr>isInitializing := False, inFlight := []\<rparr>) \<and>
          (inFlight s = [AwaitExtraction] \<longrightarrow>
             \<not> isInitializing (initStep (Settle 0 result) s) \<and>
             inFlight (initStep (Settle 0 result) s) = []) \<and>
          (inFlight s = [AwaitHeadings] \<longrightarrow>
             effects (initRun [Settle 0 (Returns True), Settle 0 (Returns True),
                 Settle 0 (Returns True)] s)
               = effects s @ [ExtractSections, RemoveControls, MountControls]) \<and>
          ((inFlight (initStep (Settle 0 result) s) = [] \<and>
            \<not> isInitializing (initStep (Settle 0 result) s)) \<or>
           (inFlight s = [AwaitHeadings] \<and>
            inFlight (initStep (Settle 0 result) s) = [AwaitStabilization]) \<or>
           (inFlight s = [AwaitStabilization] \<and>
            inFlight (initStep (Settle 0 result) s) = [AwaitExtraction])) \<and>
          \<not> isInitializing (initRun [Settle 0 r1, Settle 0 r2, Settle 0 r3] s) \<and>
          inFlight (initRun [Settle 0 r1, Settle 0 r2, Settle 0 r3] s) = []))"
proof -
  define s where "s = initRun events pageLoaded"
  have "length (inFlight pageLoaded) \<le> 1" "isInitializing pageLoaded = (inFlight pageLoaded \<noteq> [])"
    by (simp_all add: pageLoaded_def)
  from initRun_invariant [OF this, of events]
  have inv: "length (inFlight s) \<le> 1" "isInitializing s = (inFlight s \<noteq> [])"
    by (simp_all add: s_def)
  have dropped: "isInitializing s \<longrightarrow> initStep (Invoke relevant container) s = s"
    by simp
  have proceeds: "\<not> isInitializing t \<Longrightarrow>
      effects (initStep (Invoke (Returns True) container) t) = effects t @ [LocateContainer]" for t
    by (auto simp: Let_def split: outcome.splits bool.splits)
  have running: "initStep (Settle 0 Throws) s = s\<lparr>isInitializing := False, inFlight := []\<rparr> \<and>
          effects (initStep (Invoke (Returns True) container) (initStep (Settle 0 Throws) s))
            = effects s @ [LocateContainer] \<and>
          (inFlight s = [AwaitHeadings] \<longrightarrow>
             initStep (Settle 0 (Returns False)) s = s\<lparr>isInitializing := False, inFlight := []\<rparr>) \<and>
          (inFlight s = [AwaitExtraction] \<longrightarrow>
             \<not> isInitializing (initStep (Settle 0 result) s) \<and>
             inFlight (initStep (Settle 0 result) s) = []) \<and>
          (inFlight s = [AwaitHeadings] \<longrightarrow>
             effects (initRun [Settle 0 (Returns True), Settle 0 (Returns True),
                 Settle 0 (Returns True)] s)
               = effects s @ [ExtractSections, RemoveControls, MountControls]) \<and>
          ((inFlight (initStep (Settle 0 result) s) = [] \<and>
            \<not> isInitializing (initStep (Settle 0 result) s)) \<or>
           (inFlight s = [AwaitHeadings] \<and>
            inFlight (initStep (Settle 0 result) s) = [AwaitStabilization]) \<or>
           (inFlight s = [AwaitStabilization] \<and>
            inFlight (initStep (Settle 0 result) s) = [AwaitExtraction])) \<and>
          \<not> isInitializing (initRun [Settle 0 r1, Settle 0 r2, Settle 0 r3] s) \<and>
          inFlight (initRun [Settle 0 r1, Settle 0 r2, Settle 0 r3] s) = []"
    if "isInitializing s"
  proof -
    from that inv obtain p where p: "inFlight s = [p]"
      by (cases "inFlight s") auto
    note t = settle_throws_ends_pass [OF p]
    have e: "effects (initStep (Invoke (Returns True) container) (initStep (Settle 0 Throws) s))
            = effects s @ [LocateContainer]"
    proof -
      have "\<not> isInitializing (s\<lparr>isInitializing := False, inFlight := []\<rparr>)" by simp
      from proceeds [OF this] show ?thesis unfolding t by simp
    qed
    have adv: "(inFlight (initStep (Settle 0 result) s) = [] \<and>
            \<not> isInitializing (initStep (Settle 0 result) s)) \<or>
           (inFlight s = [AwaitHeadings] \<and>
            inFlight (initStep (Settle 0 result) s) = [AwaitStabilization]) \<or>
           (inFlight s = [AwaitStabilization] \<and>
            inFlight (initStep (Settle 0 result) s) = [AwaitExtraction])"
      using settle_advances [OF p, of result] p by simp
    from t e adv settle_no_headings_ends_pass [of s] settle_extraction_ends_pass [of s result]
      full_pass_effects [of s]
      three_settles_end_pass [OF p, of r1 r2 r3]
    show ?thesis by blast
  qed
  from inv dropped proceeds [of s] running show ?thesis
    unfolding s_def [symmetric] Let_def by blast
qed

theorem initialize_one_pass_in_flight_witness:
  "isInitializing (initRun [Invoke (Returns True) (Returns True), Settle 0 (Returns True)] pageLoaded) \<and>
   initStep (Invoke (Returns True) (Returns True))
     (initRun [Invoke (Returns True) (Returns True), Settle 0 (Returns True)] pageLoaded)
   = initRun [Invoke (Returns True) (Returns True), Settle 0 (Returns True)] pageLoaded \<and>
   \<not> isInitializing (initRun [Invoke (Returns True) (Returns True), Settle 0 Throws] pageLoaded) \<and>
   effects (initStep (Invoke (Returns True) (Returns True))
     (initRun [Invoke (Returns True) (Returns True), Settle 0 Throws] pageLoaded))
   = [LocateContainer, LocateContainer] \<and>
   \<not> isInitializing (initStep (Settle 0 Throws)
     (initRun [Invoke (Returns True) (Returns True), Settle 0 (Returns True), Settle 0 (Returns True)]
        pageLoaded)) \<and>
   effects (initStep (Invoke (Returns True) (Returns True)) (initStep (Settle 0 Throws)
     (initRun [Invoke (Returns True) (Returns True), Settle 0 (Returns True), Settle 0 (Returns True)]
        pageLoaded)))
   = [LocateContainer, ExtractSections, LocateContainer]"
proof -
  let ?waiting = "initRun [Invoke (Returns True) (Returns True), Settle 0 (Returns True)] pageLoaded"
  let ?failed = "initRun [Invoke (Returns True) (Returns True), Settle 0 Throws] pageLoaded"
  let ?extracting = "initRun [Invoke (Returns True) (Returns True), Settle 0 (Returns True),
      Settle 0 (Returns True)] pageLoaded"
  have 1: "isInitializing ?waiting"
    by code_simp
  have 2: "\<not> isInitializing ?failed"
    by code_simp
  have 3: "effects ?failed = [LocateContainer]"
    by code_simp
  have 4: "isInitializing ?extracting"
    by code_simp
  have 5: "effects ?extracting = [LocateContainer, ExtractSections]"
    by code_simp
  note w = initialize_one_pass_in_flight
    [of "[Invoke (Returns True) (Returns True), Settle 0 (Returns True)]"
      "Returns True" "Returns True" Throws Throws Throws Throws, unfolded Let_def]
  note f = initialize_one_pass_in_flight
    [of "[Invoke (Returns True) (Returns True), Settle 0 Throws]"
      "Returns True" "Returns True" Throws Throws Throws Throws, unfolded Let_def]
  note x = initialize_one_pass_in_flight
    [of "[Invoke (Returns True) (Returns True), Settle 0 (Returns True), Settle 0 (Returns True)]"
      "Returns True" "Returns True" Throws Throws Throws Throws, unfolded Let_def]
  from w 1 have a: "initStep (Invoke (Returns True) (Returns True)) ?waiting = ?waiting"
    by blast
  from f 2 have "effects (initStep (Invoke (Returns True) (Returns True)) ?failed)
      = effects ?failed @ [LocateContainer]"
    by blast
  then have b: "effects (initStep (Invoke (Returns True) (Returns True)) ?failed)
      = [LocateContainer, LocateContainer]"
    by (simp only: 3) simp
  from x 4 have eq: "initStep (Settle 0 Throws) ?extracting
      = ?extracting\<lparr>isInitializing := False, inFlight := []\<rparr>"
    and ef: "effects (initStep (Invoke (Returns True) (Returns True))
        (initStep (Settle 0 Throws) ?extracting)) = effects ?extracting @ [LocateContainer]"
    by blast+
  have c: "\<not> isInitializing (initStep (Settle 0 Throws) ?extracting)"
    by (simp only: eq) simp
  have d: "effects (initStep (Invoke (Returns True) (Returns True))
        (initStep (Settle 0 Throws) ?extracting))
      = [LocateContainer, ExtractSections, LocateContainer]"
    by (simp only: ef 5) simp
  from 1 2 a b c d show ?thesis by blast
qed

section \<open>Refreshing the overlay\<close>

text \<open>The ids of the controls of two sections differ, since their indices are printed in them.\<close>

lemma radix_digits_value:
  "foldl (\<lambda>a c. 10 * a + ((of_char c :: nat) - 48)) 0 (radix_digits 10 n) = n"
proof (induction "10 :: nat" n rule: radix_digits.induct)
  case (1 n)
  show ?case
  proof (cases "n < 10")
    case True
    then show ?thesis by (simp add: radix_digits.simps [of 10 n])
  next
    case False
    with 1 have IH: "foldl (\<lambda>a c. 10 * a + ((of_char c :: nat) - 48)) 0 (radix_digits 10 (n div 10)) = n div 10"
      by simp
    have "n mod 10 < 10" by simp
    then have d: "(of_char (char_of (48 + n mod 10) :: char) :: nat) = 48 + n mod 10"
      by simp
    from False have "radix_digits 10 n = radix_digits 10 (n div 10) @ [char_of (48 + n mod 10)]"
      by (simp add: radix_digits.simps [of 10 n])
    then show ?thesis by (simp add: IH d)
  qed
qed

lemma radix_digits_inj: "radix_digits 10 n = radix_digits 10 m \<Longrightarrow> n = m"
  by (metis radix_digits_value)

lemma radix_digits_no_dash: "CHR ''-'' \<notin> set (radix_digits 10 n)"
proof (induction "10 :: nat" n rule: radix_digits.induct)
  case (1 n)
  have digit: "(char_of (48 + k) :: char) \<noteq> CHR ''-''" if "k < 10" for k :: nat
  proof
    assume "(char_of (48 + k) :: char) = CHR ''-''"
    then have "(of_char (char_of (48 + k) :: char) :: nat) = of_char CHR ''-''" by simp
    with that show False by simp
  qed
  show ?case
  proof (cases "n < 10")
    case True
    with digit [of n] show ?thesis by (simp add: radix_digits.simps [of 10 n])
  next
    case False
    with 1 have "CHR ''-'' \<notin> set (radix_digits 10 (n div 10))" by simp
    moreover have "(char_of (48 + n mod 10) :: char) \<noteq> CHR ''-''" by (rule digit) simp
    ultimately show ?thesis using False by (simp add: radix_digits.simps [of 10 n])
  qed
qed

lemma same_part_before_separator:
  "x \<notin> set a \<Longrightarrow> x \<notin> set b \<Longrightarrow> a @ x # u = b @ x # v \<Longrightarrow> a = b"
proof (induction a arbitrary: b)
  case Nil
  then show ?case by (cases b) auto
next
  case (Cons c a)
  then show ?case by (cases b) auto
qed

lemma generateButtonId_index:
  assumes "generateButtonId s i = generateButtonId t j"
  shows "i = j"
proof -
  from assms obtain x y where
    "radix_digits 10 i @ CHR ''-'' # x = radix_digits 10 j @ CHR ''-'' # y"
    by (auto simp: generateButtonId_def number_to_string_def Let_def)
  then have "radix_digits 10 i = radix_digits 10 j"
    by (rule same_part_before_separator [OF radix_digits_no_dash radix_digits_no_dash])
  then show ?thesis by (rule radix_digits_inj)
qed


lemma no_inline_text:
  assumes "noInlineControls d"
  shows "headingTextContent d k = el_text (doc_headings d ! k)"
proof -
  have "list_all (\<lambda>pc. case fst pc of InsideHeading k \<Rightarrow> False | _ \<Rightarrow> True) cs \<Longrightarrow>
        concat (map (\<lambda>pc. if fst pc = InsideHeading k then c_text (snd pc) else []) cs) = []" for cs
    by (induction cs) (auto split: placement.splits)
  with assms show ?thesis
    by (simp add: headingTextContent_def noInlineControls_def)
qed

lemma shape_nth:
  assumes "headingShape d = headingShape d'" "k < length (doc_headings d)"
  shows "el_level (doc_headings d ! k) = el_level (doc_headings d' ! k)"
    and "el_text (doc_headings d ! k) = el_text (doc_headings d' ! k)"
    and "el_hasParent (doc_headings d ! k) = el_hasParent (doc_headings d' ! k)"
proof -
  from assms(1) have len: "length (doc_headings d) = length (doc_headings d')"
    unfolding headingShape_def by (rule map_eq_imp_length_eq)
  from assms(1) have "headingShape d ! k = headingShape d' ! k" by simp
  with assms(2) len
  have "(el_level (doc_headings d ! k), el_text (doc_headings d ! k), el_hasParent (doc_headings d ! k))
      = (el_level (doc_headings d' ! k), el_text (doc_headings d' ! k), el_hasParent (doc_headings d' ! k))"
    by (simp add: headingShape_def)
  then show "el_level (doc_headings d ! k) = el_level (doc_headings d' ! k)"
    and "el_text (doc_headings d ! k) = el_text (doc_headings d' ! k)"
    and "el_hasParent (doc_headings d ! k) = el_hasParent (doc_headings d' ! k)"
    by simp_all
qed

lemma shape_length:
  "headingShape d = headingShape d' \<Longrightarrow> length (doc_headings d) = length (doc_headings d')"
  unfolding headingShape_def by (rule map_eq_imp_length_eq)

lemma queryHeadings_shape:
  assumes "headingShape d = headingShape d'" "noInlineControls d" "noInlineControls d'"
  shows "queryHeadings d lv = queryHeadings d' lv"
proof -
  have len: "length (doc_headings d) = length (doc_headings d')"
    using assms(1) by (rule shape_length)
  have f: "filter (\<lambda>k. el_level (doc_headings d ! k) = lv) [0..<length (doc_headings d)]
      = filter (\<lambda>k. el_level (doc_headings d' ! k) = lv) [0..<length (doc_headings d)]"
    by (rule filter_cong) (auto simp: shape_nth(1) [OF assms(1)])
  have "map (\<lambda>k. (k, trim (headingTextContent d k)))
          (filter (\<lambda>k. el_level (doc_headings d' ! k) = lv) [0..<length (doc_headings d)])
      = map (\<lambda>k. (k, trim (headingTextContent d' k)))
          (filter (\<lambda>k. el_level (doc_headings d' ! k) = lv) [0..<length (doc_headings d)])"
    by (rule map_cong)
      (auto simp: no_inline_text [OF assms(2)] no_inline_text [OF assms(3)] shape_nth(2) [OF assms(1)])
  with f len show ?thesis by (simp add: queryHeadings_def)
qed

lemma locateHeading_shape:
  assumes "headingShape d = headingShape d'" "noInlineControls d" "noInlineControls d'"
  shows "locateHeading d s i = locateHeading d' s i"
  by (simp add: locateHeading_def queryHeadings_shape [OF assms])

lemma queryHeadings_bound: "h \<in> set (queryHeadings d lv) \<Longrightarrow> fst h < length (doc_headings d)"
  by (auto simp: queryHeadings_def)

lemma find_in_set: "find P xs = Some x \<Longrightarrow> x \<in> set xs"
  by (induction xs) (auto split: if_splits)

lemma locateHeading_bound:
  assumes "locateHeading d s i = Some k"
  shows "k < length (doc_headings d)"
proof -
  let ?hs = "queryHeadings d (level s)"
  from assms have "\<exists>h \<in> set ?hs. fst h = k"
    by (auto simp: locateHeading_def Let_def findExactMatch_def findNormalizedMatch_def
        findPartialMatch_def findIndexMatch_def
        split: option.splits if_splits dest!: find_in_set)
  then show ?thesis using queryHeadings_bound by blast
qed


lemma insertOne_mounts:
  assumes new: "generateButtonId s i \<notin> set (map fst (buttons m))"
    and loc: "locateHeading (page m) s i = Some k"
    and unprocessed: "\<not> el_processed (doc_headings (page m) ! k)"
    and parent: "el_hasParent (doc_headings (page m) ! k)"
    and k: "k < length (doc_headings (page m))"
  shows "\<exists>b. buttons (insertOne s i m) = buttons m @ [(generateButtonId s i, b)] \<and>
     doc_controls (page (insertOne s i m)) = doc_controls (page m) @ [(AfterHeading k, b)] \<and>
     doc_headings (page (insertOne s i m)) =
       (doc_headings (page m))
         [k := (doc_headings (page m) ! k)\<lparr>el_sectionId := Some (number_to_string (int i)),
                 el_processed := True\<rparr>]"
  using assms
  by (simp add: insertOne_def Let_def findHeading_def setSectionAttribute_def createButton_def
      insertButton_def insertButtonAfterElement_def mapSet_def)

lemma shape_update:
  assumes "k < length (doc_headings d)"
    and "doc_headings d' = (doc_headings d)
           [k := (doc_headings d ! k)\<lparr>el_sectionId := a, el_processed := p\<rparr>]"
  shows "headingShape d' = headingShape d"
proof -
  have "map (\<lambda>h. (el_level h, el_text h, el_hasParent h))
          ((doc_headings d)[k := (doc_headings d ! k)\<lparr>el_sectionId := a, el_processed := p\<rparr>])
      = (map (\<lambda>h. (el_level h, el_text h, el_hasParent h)) (doc_headings d))
          [k := (map (\<lambda>h. (el_level h, el_text h, el_hasParent h)) (doc_headings d)) ! k]"
    using assms(1) by (simp add: map_update)
  then show ?thesis by (simp add: headingShape_def assms(2))
qed

lemma distinct_nth_not_before:
  assumes "distinct ks" "i < length ks"
  shows "ks ! i \<notin> set (take i ks)"
proof
  assume "ks ! i \<in> set (take i ks)"
  then obtain j where j: "j < length (take i ks)" "take i ks ! j = ks ! i"
    by (auto simp: in_set_conv_nth)
  then have "j < i" "ks ! j = ks ! i" by simp_all
  with assms show False by (simp add: nth_eq_iff_index_eq)
qed

lemma processed_update:
  assumes "i < length ks" "ks ! i < n"
  shows "(map (\<lambda>k. k \<in> set (take i ks)) [0..<n])[ks ! i := True]
       = map (\<lambda>k. k \<in> set (take (Suc i) ks)) [0..<n]"
proof (rule nth_equalityI)
  show "length ((map (\<lambda>k. k \<in> set (take i ks)) [0..<n])[ks ! i := True])
      = length (map (\<lambda>k. k \<in> set (take (Suc i) ks)) [0..<n])"
    by simp
next
  fix x assume "x < length ((map (\<lambda>k. k \<in> set (take i ks)) [0..<n])[ks ! i := True])"
  then have x: "x < n" by simp
  from assms(1) have t: "take (Suc i) ks = take i ks @ [ks ! i]"
    by (rule take_Suc_conv_app_nth)
  show "(map (\<lambda>k. k \<in> set (take i ks)) [0..<n])[ks ! i := True] ! x
      = map (\<lambda>k. k \<in> set (take (Suc i) ks)) [0..<n] ! x"
    using x assms(2) by (cases "x = ks ! i") (auto simp: t nth_list_update)
qed

lemma invariant_no_inline:
  assumes "overlayInvariant d0 secs ks i m"
  shows "noInlineControls (page m)"
proof -
  from assms have "map fst (doc_controls (page m)) = map AfterHeading (take i ks)"
    by (simp add: overlayInvariant_def)
  then have "\<forall>p \<in> set (map fst (doc_controls (page m))). \<exists>k. p = AfterHeading k"
    by auto
  then show ?thesis
    by (auto simp: noInlineControls_def list_all_iff split: placement.splits)
qed

lemma insertOne_invariant:
  assumes inv: "overlayInvariant d0 secs ks i m"
    and i: "i < length secs" and len: "length ks = length secs" and dist: "distinct ks"
    and loc: "locateHeading d0 (secs ! i) i = Some (ks ! i)"
    and par: "list_all el_hasParent (doc_headings d0)"
    and d0: "noInlineControls d0"
  shows "overlayInvariant d0 secs ks (Suc i) (insertOne (secs ! i) i m)"
proof -
  let ?k = "ks ! i"
  from inv have shape: "headingShape (page m) = headingShape d0"
    and ctl: "map fst (doc_controls (page m)) = map AfterHeading (take i ks)"
    and ids: "map fst (buttons m) = map (\<lambda>j. generateButtonId (secs ! j) j) [0..<i]"
    and tracked: "map snd (buttons m) = map snd (doc_controls (page m))"
    and proc: "map el_processed (doc_headings (page m))
        = map (\<lambda>k. k \<in> set (take i ks)) [0..<length (doc_headings d0)]"
    by (simp_all add: overlayInvariant_def)
  have lens: "length (doc_headings (page m)) = length (doc_headings d0)"
    using shape by (rule shape_length)
  have k0: "?k < length (doc_headings d0)"
    using loc by (rule locateHeading_bound)
  with lens have k: "?k < length (doc_headings (page m))" by simp
  have new: "generateButtonId (secs ! i) i \<notin> set (map fst (buttons m))"
  proof
    assume "generateButtonId (secs ! i) i \<in> set (map fst (buttons m))"
    with ids obtain j where "j < i" "generateButtonId (secs ! i) i = generateButtonId (secs ! j) j"
      by auto
    with generateButtonId_index show False by blast
  qed
  have loc': "locateHeading (page m) (secs ! i) i = Some ?k"
    using locateHeading_shape [OF shape invariant_no_inline [OF inv] d0] loc by simp
  have "el_processed (doc_headings (page m) ! ?k) = (map el_processed (doc_headings (page m))) ! ?k"
    using k by simp
  also have "\<dots> = (?k \<in> set (take i ks))"
    using k0 by (simp add: proc)
  finally have unprocessed: "\<not> el_processed (doc_headings (page m) ! ?k)"
    using distinct_nth_not_before [OF dist] i len by simp
  have "el_hasParent (doc_headings d0 ! ?k)"
    using par k0 by (simp add: list_all_length)
  then have parent: "el_hasParent (doc_headings (page m) ! ?k)"
    using shape_nth(3) [OF shape k] by simp
  from insertOne_mounts [OF new loc' unprocessed parent k]
  obtain b where bt: "buttons (insertOne (secs ! i) i m)
        = buttons m @ [(generateButtonId (secs ! i) i, b)]"
    and ct: "doc_controls (page (insertOne (secs ! i) i m))
        = doc_controls (page m) @ [(AfterHeading ?k, b)]"
    and hd: "doc_headings (page (insertOne (secs ! i) i m)) =
       (doc_headings (page m))
         [?k := (doc_headings (page m) ! ?k)\<lparr>el_sectionId := Some (number_to_string (int i)),
                 el_processed := True\<rparr>]"
    by blast
  have t: "take (Suc i) ks = take i ks @ [?k]"
    using i len by (simp add: take_Suc_conv_app_nth)
  have 1: "headingShape (page (insertOne (secs ! i) i m)) = headingShape d0"
    using shape_update [OF k hd] shape by simp
  have 2: "map fst (doc_controls (page (insertOne (secs ! i) i m))) = map AfterHeading (take (Suc i) ks)"
    by (simp add: ct ctl t)
  have 3: "map fst (buttons (insertOne (secs ! i) i m))
      = map (\<lambda>j. generateButtonId (secs ! j) j) [0..<Suc i]"
    by (simp add: bt ids)
  have 4: "map snd (buttons (insertOne (secs ! i) i m))
      = map snd (doc_controls (page (insertOne (secs ! i) i m)))"
    by (simp add: bt ct tracked)
  have "map el_processed (doc_headings (page (insertOne (secs ! i) i m)))
      = (map el_processed (doc_headings (page m)))[?k := True]"
    by (simp add: hd map_update)
  also have "\<dots> = map (\<lambda>k. k \<in> set (take (Suc i) ks)) [0..<length (doc_headings d0)]"
    unfolding proc using i len k0 by (intro processed_update) simp_all
  finally have 5: "map el_processed (doc_headings (page (insertOne (secs ! i) i m)))
      = map (\<lambda>k. k \<in> set (take (Suc i) ks)) [0..<length (doc_headings d0)]" .
  from 1 2 3 4 5 show ?thesis
    unfolding overlayInvariant_def by blast
qed


lemma insertEach_invariant:
  assumes len: "length ks = length secs" and dist: "distinct ks"
    and loc: "\<And>j. j < length secs \<Longrightarrow> locateHeading d0 (secs ! j) j = Some (ks ! j)"
    and par: "list_all el_hasParent (doc_headings d0)"
    and d0: "noInlineControls d0"
  shows "i \<le> length secs \<Longrightarrow> overlayInvariant d0 secs ks i m \<Longrightarrow>
         overlayInvariant d0 secs ks (length secs) (insertEach (drop i secs) i m)"
proof (induction "length secs - i" arbitrary: i m)
  case 0
  then show ?case by simp
next
  case (Suc n)
  then have i: "i < length secs" by simp
  then have d: "drop i secs = secs ! i # drop (Suc i) secs"
    by (simp add: Cons_nth_drop_Suc)
  have step: "overlayInvariant d0 secs ks (Suc i) (insertOne (secs ! i) i m)"
    by (rule insertOne_invariant [OF Suc.prems(2) i len dist loc [OF i] par d0])
  from Suc.hyps(2) have "n = length secs - Suc i" by simp
  from Suc.hyps(1) [OF this _ step] i show ?case
    by (simp add: d)
qed

lemma removeButtons_headings:
  "doc_headings (foldl (\<lambda>d entry. removeButton (snd entry) d) d bs) = doc_headings d"
  by (induction bs arbitrary: d) (simp_all add: removeButton_def)

lemma removeAllButtons_clean:
  "buttons (removeAllButtons m) = []"
  "doc_controls (page (removeAllButtons m)) = []"
  "list_all (\<lambda>h. \<not> el_processed h) (doc_headings (page (removeAllButtons m)))"
  "headingShape (page (removeAllButtons m)) = headingShape (page m)"
  "noInlineControls (page (removeAllButtons m))"
  by (simp_all add: removeAllButtons_def Let_def list_all_iff headingShape_def
      removeButtons_headings noInlineControls_def comp_def)

lemma removeAllButtons_invariant:
  "overlayInvariant (page (removeAllButtons m)) secs ks 0 (removeAllButtons m)"
proof -
  have "map el_processed (doc_headings (page (removeAllButtons m)))
      = map (\<lambda>k. False) [0..<length (doc_headings (page (removeAllButtons m)))]"
    using removeAllButtons_clean(3) [of m]
    by (intro nth_equalityI) (simp_all add: list_all_length)
  then show ?thesis
    by (simp add: overlayInvariant_def removeAllButtons_clean)
qed

lemma mountable_located:
  assumes "mountable secs m"
  shows "\<exists>ks. length ks = length secs \<and> distinct ks \<and>
    (\<forall>j < length secs. locateHeading (page (removeAllButtons m)) (secs ! j) j = Some (ks ! j)) \<and>
    list_all el_hasParent (doc_headings (page (removeAllButtons m)))"
proof -
  let ?d = "page (removeAllButtons m)"
  let ?found = "map (\<lambda>i. locateHeading ?d (secs ! i) i) [0..<length secs]"
  from assms have par: "list_all el_hasParent (doc_headings ?d)"
    and some: "list_all (\<lambda>f. f \<noteq> None) ?found" and dist: "distinct ?found"
    by (simp_all add: mountable_def Let_def)
  let ?ks = "map the ?found"
  have 1: "length ?ks = length secs" by simp
  have "inj_on the (set ?found)"
  proof (rule inj_onI)
    fix a b assume a: "a \<in> set ?found" and b: "b \<in> set ?found" and eq: "the a = the b"
    from a b some have "a \<noteq> None" "b \<noteq> None"
      unfolding list_all_iff by blast+
    with eq show "a = b" by (cases a; cases b) simp_all
  qed
  with dist have 2: "distinct ?ks" by (simp only: distinct_map)
  have 3: "\<forall>j < length secs. locateHeading ?d (secs ! j) j = Some (?ks ! j)"
  proof (intro allI impI)
    fix j assume j: "j < length secs"
    with some have "locateHeading ?d (secs ! j) j \<noteq> None"
      by (simp add: list_all_length)
    with j show "locateHeading ?d (secs ! j) j = Some (?ks ! j)" by auto
  qed
  from 1 2 3 par show ?thesis by blast
qed

lemma insertButtons_invariant:
  assumes len: "length ks = length secs" and dist: "distinct ks"
    and loc: "\<And>j. j < length secs \<Longrightarrow>
        locateHeading (page (removeAllButtons m)) (secs ! j) j = Some (ks ! j)"
    and par: "list_all el_hasParent (doc_headings (page (removeAllButtons m)))"
  shows "overlayInvariant (page (removeAllButtons m)) secs ks (length secs) (insertButtons secs m)"
  using insertEach_invariant [OF len dist loc par removeAllButtons_clean(5), of 0 "removeAllButtons m"]
    removeAllButtons_invariant [of m secs ks]
  by (simp add: insertButtons_def)

lemma mountable_again:
  assumes "mountable secs m"
  shows "mountable secs (insertButtons secs m)"
    and "\<And>s i. locateHeading (page (removeAllButtons (insertButtons secs m))) s i
           = locateHeading (page (removeAllButtons m)) s i"
proof -
  let ?d = "page (removeAllButtons m)"
  let ?m1 = "insertButtons secs m"
  let ?d1 = "page (removeAllButtons ?m1)"
  from mountable_located [OF assms] obtain ks where ks: "length ks = length secs" "distinct ks"
    "\<And>j. j < length secs \<Longrightarrow> locateHeading ?d (secs ! j) j = Some (ks ! j)"
    "list_all el_hasParent (doc_headings ?d)"
    by blast
  from insertButtons_invariant [OF ks] have "headingShape (page ?m1) = headingShape ?d"
    by (simp add: overlayInvariant_def)
  then have shape: "headingShape ?d1 = headingShape ?d"
    by (simp add: removeAllButtons_clean(4))
  show same: "locateHeading ?d1 s i = locateHeading ?d s i" for s i
    by (rule locateHeading_shape [OF shape removeAllButtons_clean(5) removeAllButtons_clean(5)])
  have "list_all el_hasParent (doc_headings d) = list_all (\<lambda>t. snd (snd t)) (headingShape d)" for d
    by (simp add: headingShape_def list_all_iff)
  with shape ks(4) have "list_all el_hasParent (doc_headings ?d1)" by simp
  with assms show "mountable secs ?m1"
    by (simp add: mountable_def Let_def same)
qed

lemma insertButtons_mounted:
  assumes "mountable secs m"
  shows "getButtonCount (insertButtons secs m) = length secs"
    and "map fst (doc_controls (page (insertButtons secs m))) =
           map (\<lambda>i. AfterHeading (the (locateHeading (page (removeAllButtons m)) (secs ! i) i)))
             [0..<length secs]"
    and "map snd (buttons (insertButtons secs m)) = map snd (doc_controls (page (insertButtons secs m)))"
    and "distinct (map fst (doc_controls (page (insertButtons secs m))))"
proof -
  let ?d = "page (removeAllButtons m)"
  from mountable_located [OF assms] obtain ks where ks: "length ks = length secs" "distinct ks"
    "\<And>j. j < length secs \<Longrightarrow> locateHeading ?d (secs ! j) j = Some (ks ! j)"
    "list_all el_hasParent (doc_headings ?d)"
    by blast
  from insertButtons_invariant [OF ks]
  have ctl: "map fst (doc_controls (page (insertButtons secs m))) = map AfterHeading ks"
    and ids: "map fst (buttons (insertButtons secs m))
        = map (\<lambda>j. generateButtonId (secs ! j) j) [0..<length secs]"
    and tracked: "map snd (buttons (insertButtons secs m))
        = map snd (doc_controls (page (insertButtons secs m)))"
    using ks(1) by (simp_all add: overlayInvariant_def)
  from ids have "length (map fst (buttons (insertButtons secs m))) = length secs" by simp
  then show "getButtonCount (insertButtons secs m) = length secs"
    by (simp add: getButtonCount_def)
  have "ks = map (\<lambda>i. the (locateHeading ?d (secs ! i) i)) [0..<length secs]"
    using ks(1) ks(3) by (intro nth_equalityI) simp_all
  then have "map AfterHeading ks =
      map (\<lambda>i. AfterHeading (the (locateHeading ?d (secs ! i) i))) [0..<length secs]"
    by (simp add: comp_def) 
  with ctl show "map fst (doc_controls (page (insertButtons secs m))) =
           map (\<lambda>i. AfterHeading (the (locateHeading ?d (secs ! i) i))) [0..<length secs]"
    by simp
  show "map snd (buttons (insertButtons secs m)) = map snd (doc_controls (page (insertButtons secs m)))"
    by (rule tracked)
  from ks(2) show "distinct (map fst (doc_controls (page (insertButtons secs m))))"
    unfolding ctl by (simp add: distinct_map inj_on_def)
qed

text \<open>
  Claim C2. When the sections are mountable (after the tear-down each is located at a
  heading of its own, and the headings have a parent), \<^verbatim>\<open>insertButtons\<close> leaves as many
  tracked controls as sections, after the first call and after the second; after the second
  call the controls of the page are exactly the tracked ones, one per section, each after
  the heading of its section. \<^verbatim>\<open>insertButtons\<close> begins with \<^verbatim>\<open>removeAllButtons\<close>, which
  leaves no tracked control, no element of the class of the controls on the page, stray
  ones included, and no processed marker.
\<close>

theorem insertButtons_idempotent:
  "(mountable secs m \<longrightarrow>
      getButtonCount (insertButtons secs m) = length secs \<and>
      getButtonCount (insertButtons secs (insertButtons secs m)) = length secs \<and>
      map fst (doc_controls (page (insertButtons secs m))) =
        map (\<lambda>i. AfterHeading (the (locateHeading (page (removeAllButtons m)) (secs ! i) i)))
          [0..<length secs] \<and>
      map fst (doc_controls (page (insertButtons secs (insertButtons secs m)))) =
        map (\<lambda>i. AfterHeading (the (locateHeading (page (removeAllButtons m)) (secs ! i) i)))
          [0..<length secs] \<and>
      distinct (map fst (doc_controls (page (insertButtons secs (insertButtons secs m))))) \<and>
      map snd (buttons (insertButtons secs (insertButtons secs m))) =
        map snd (doc_controls (page (insertButtons secs (insertButtons secs m))))) \<and>
   buttons (removeAllButtons m) = [] \<and>
   doc_controls (page (removeAllButtons m)) = [] \<and>
   list_all (\<lambda>h. \<not> el_processed h) (doc_headings (page (removeAllButtons m))) \<and>
   insertButtons [] m = removeAllButtons m"
proof (intro conjI impI)
  assume mt: "mountable secs m"
  note again = mountable_again [OF mt]
  show "getButtonCount (insertButtons secs m) = length secs"
    by (rule insertButtons_mounted(1) [OF mt])
  show "getButtonCount (insertButtons secs (insertButtons secs m)) = length secs"
    by (rule insertButtons_mounted(1) [OF again(1)])
  show "map fst (doc_controls (page (insertButtons secs m))) =
        map (\<lambda>i. AfterHeading (the (locateHeading (page (removeAllButtons m)) (secs ! i) i)))
          [0..<length secs]"
    by (rule insertButtons_mounted(2) [OF mt])
  show "map fst (doc_controls (page (insertButtons secs (insertButtons secs m)))) =
        map (\<lambda>i. AfterHeading (the (locateHeading (page (removeAllButtons m)) (secs ! i) i)))
          [0..<length secs]"
    using insertButtons_mounted(2) [OF again(1)] by (simp only: again(2))
  show "distinct (map fst (doc_controls (page (insertButtons secs (insertButtons secs m)))))"
    by (rule insertButtons_mounted(4) [OF again(1)])
  show "map snd (buttons (insertButtons secs (insertButtons secs m))) =
        map snd (doc_controls (page (insertButtons secs (insertButtons secs m))))"
    by (rule insertButtons_mounted(3) [OF again(1)])
next
  show "buttons (removeAllButtons m) = []" by (rule removeAllButtons_clean(1))
  show "doc_controls (page (removeAllButtons m)) = []" by (rule removeAllButtons_clean(2))
  show "list_all (\<lambda>h. \<not> el_processed h) (doc_headings (page (removeAllButtons m)))"
    by (rule removeAllButtons_clean(3))
  show "insertButtons [] m = removeAllButtons m" by (simp add: insertButtons_def)
qed

theorem insertButtons_idempotent_witness:
  "mountable exampleSections exampleManager \<and>
   getButtonCount (insertButtons exampleSections exampleManager) = 3 \<and>
   getButtonCount (insertButtons exampleSections (insertButtons exampleSections exampleManager)) = 3 \<and>
   map fst (doc_controls (page (insertButtons exampleSections
      (insertButtons exampleSections exampleManager))))
     = [AfterHeading 0, AfterHeading 1, AfterHeading 2]"
proof -
  have mt: "mountable exampleSections exampleManager"
    by code_simp
  have len: "length exampleSections = 3"
    by (simp add: exampleSections_def)
  have ctl: "map fst (doc_controls (page (insertButtons exampleSections
      (insertButtons exampleSections exampleManager))))
     = [AfterHeading 0, AfterHeading 1, AfterHeading 2]"
    by code_simp
  from insertButtons_idempotent [of exampleSections exampleManager] mt len ctl
  show ?thesis by simp
qed

end
